theory Spec2Isabelle
  imports Main
begin

section \<open>Time values and the host's local time (scheduler.ts, \<open>Date\<close>)\<close>

text \<open>
  A JavaScript time value is a number of milliseconds since the epoch; every value the
  scheduler handles is an integer far below \<open>2^53\<close>, so it is an \<open>int\<close> here.
  \<open>Date.prototype.setHours\<close> and \<open>setDate\<close> work in the local time of the host
  process.  ECMAScript gives that zone as \<open>LocalTZA(t, isUTC)\<close>: the offset in
  milliseconds at the UTC instant \<open>t\<close> (\<open>isUTC = True\<close>) or at the local time
  \<open>t\<close> (\<open>isUTC = False\<close>).  The zone is a parameter of the model.
\<close>

type_synonym instant = int
type_synonym tza = "int \<Rightarrow> bool \<Rightarrow> int"

definition msPerDay :: int where
  "msPerDay = 86400000"

definition Day :: "int \<Rightarrow> int" where
  "Day t = t div msPerDay"

definition TimeWithinDay :: "int \<Rightarrow> int" where
  "TimeWithinDay t = t mod msPerDay"

definition MakeTime :: "int \<Rightarrow> int \<Rightarrow> int \<Rightarrow> int \<Rightarrow> int" where
  "MakeTime h m s ms = h * 3600000 + m * 60000 + s * 1000 + ms"

definition MakeDate :: "int \<Rightarrow> int \<Rightarrow> int" where
  "MakeDate day time = day * msPerDay + time"

definition LocalTime :: "tza \<Rightarrow> instant \<Rightarrow> int" where
  "LocalTime z t = t + z t True"

definition UTC :: "tza \<Rightarrow> int \<Rightarrow> instant" where
  "UTC z t = t - z t False"

text \<open>\<open>d.setHours(h, m, s, ms)\<close>: keep the local day of \<open>d\<close>, replace the time within it.\<close>

definition setHours :: "tza \<Rightarrow> instant \<Rightarrow> int \<Rightarrow> int \<Rightarrow> int \<Rightarrow> int \<Rightarrow> instant" where
  "setHours z t h m s ms = UTC z (MakeDate (Day (LocalTime z t)) (MakeTime h m s ms))"

text \<open>
  \<open>d.setDate(d.getDate() + 1)\<close>.  ECMAScript computes
  \<open>MakeDate(MakeDay(YearFromTime(t), MonthFromTime(t), DateFromTime(t) + 1), TimeWithinDay(t))\<close>
  on the local time \<open>t\<close>; \<open>MakeDay\<close> of the day of the month plus one is the day
  number of \<open>t\<close> plus one, whatever the month, so no calendar is needed.
\<close>

definition setDate_next :: "tza \<Rightarrow> instant \<Rightarrow> instant" where
  "setDate_next z t =
     UTC z (MakeDate (Day (LocalTime z t) + 1) (TimeWithinDay (LocalTime z t)))"

section \<open>Configuration (config.ts)\<close>

record LeagueFetchConfig =
  fetchHour :: int
  fetchMinute :: int
  timeZone :: string

definition LEAGUE_FETCH_TIMES :: "(string \<times> LeagueFetchConfig) list" where
  "LEAGUE_FETCH_TIMES =
     [(''EPL'', \<lparr>fetchHour = 10, fetchMinute = 0, timeZone = ''Europe/Madrid''\<rparr>),
      (''NBA'', \<lparr>fetchHour = 15, fetchMinute = 0, timeZone = ''Europe/Madrid''\<rparr>),
      (''NHL'', \<lparr>fetchHour = 11, fetchMinute = 0, timeZone = ''Europe/Madrid''\<rparr>),
      (''MLB'', \<lparr>fetchHour = 12, fetchMinute = 0, timeZone = ''Europe/Madrid''\<rparr>)]"

section \<open>The daily trigger (scheduler.ts, \<open>setupLeagueScheduler\<close>, first half)\<close>

text \<open>
  \<open>targetTime\<close> is today's \<open>fetchHour:fetchMinute:00.000\<close> in the host's local time,
  moved one day on when \<open>now > targetTime\<close>.  The field \<open>timeZone\<close> of the
  configuration is not read.
\<close>

definition targetTime :: "tza \<Rightarrow> instant \<Rightarrow> LeagueFetchConfig \<Rightarrow> instant" where
  "targetTime z now config =
     (let t0 = setHours z now (fetchHour config) (fetchMinute config) 0 0
      in if now > t0 then setDate_next z t0 else t0)"

definition timeUntilNextFetch :: "tza \<Rightarrow> instant \<Rightarrow> LeagueFetchConfig \<Rightarrow> int" where
  "timeUntilNextFetch z now config = targetTime z now config - now"

text \<open>
  What the specification calls an occurrence of \<open>hour:minute\<close> in a zone: an instant
  whose local time within the day, in that zone, is \<open>hour:minute:00.000\<close>.
\<close>

definition occurrence :: "tza \<Rightarrow> int \<Rightarrow> int \<Rightarrow> instant \<Rightarrow> bool" where
  "occurrence z h m t \<longleftrightarrow> TimeWithinDay (LocalTime z t) = MakeTime h m 0 0"

text \<open>
  A local time \<open>L\<close> is regular in a zone when the zone's clock passes it exactly once,
  at \<open>UTC z L\<close>: before that instant the clock shows less, after it more.  The local
  times that a change of offset skips or repeats are the ones that are not regular.
\<close>

definition regular :: "tza \<Rightarrow> int \<Rightarrow> bool" where
  "regular z L \<longleftrightarrow>
     (\<forall>t. (t < UTC z L \<longleftrightarrow> LocalTime z t < L) \<and> (UTC z L < t \<longleftrightarrow> L < LocalTime z t))"

text \<open>The local time \<open>fetchHour:fetchMinute:00.000\<close> on the local day of \<open>now\<close>: the
  argument that \<open>setHours\<close> hands to \<open>UTC\<close>.\<close>

definition todayTarget :: "tza \<Rightarrow> instant \<Rightarrow> LeagueFetchConfig \<Rightarrow> int" where
  "todayTarget z now config =
     MakeDate (Day (LocalTime z now)) (MakeTime (fetchHour config) (fetchMinute config) 0 0)"

text \<open>Fixed-offset zones, for concrete runs: UTC is \<open>fixedZone 0\<close>, Central European
  standard time is \<open>fixedZone 3600000\<close>.  \<open>tzdb_winter\<close> is the part of the IANA
  database the configuration needs, on a winter day.\<close>

definition fixedZone :: "int \<Rightarrow> tza" where
  "fixedZone off t isUTC = off"

definition tzdb_winter :: "string \<Rightarrow> tza" where
  "tzdb_winter name = (if name = ''Europe/Madrid'' then fixedZone 3600000 else fixedZone 0)"

text \<open>Europe/Madrid through 2024: UTC+1 until 2024-03-31T01:00Z, UTC+2 until
  2024-10-27T01:00Z, UTC+1 after.  A local time that is skipped (02:00 to 03:00 on 31
  March) or repeated (02:00 to 03:00 on 27 October) is read with the offset before the
  change, as ECMAScript says.\<close>

definition madrid_2024 :: tza where
  "madrid_2024 t isUTC =
     (if isUTC then
        (if t < 1711846800000 then 3600000
         else if t < 1729990800000 then 7200000 else 3600000)
      else
        (if t < 1711846800000 + 7200000 then 3600000
         else if t < 1729990800000 + 7200000 then 7200000 else 3600000))"

definition tzdb_2024 :: "string \<Rightarrow> tza" where
  "tzdb_2024 name = (if name = ''Europe/Madrid'' then madrid_2024 else fixedZone 0)"

section \<open>Exceptions, logs and text\<close>

text \<open>A thrown JavaScript value is an \<open>error\<close>: a \<open>TypeError\<close> of the runtime (a
  property read on \<open>undefined\<close> or \<open>null\<close>, a call of something that is not a
  function) or an \<open>Error\<close> with its message.  A function that can throw returns
  \<open>error + 'a\<close>, with \<open>Inl\<close> for the throw.  The logger is the one with the
  methods \<open>info\<close>, \<open>warn\<close>, \<open>error\<close> and \<open>debug\<close>; they print and never throw.
  Where a claim speaks of the log (the event source), a log call is kept with its level
  and its message, without the data argument of the call; elsewhere log calls are left
  out.\<close>

datatype error = TypeError | Error string

datatype log_entry = LogInfo string | LogWarn string | LogError string

definition nl :: string where
  "nl = [CHR 0x0A]"

text \<open>Decimal rendering of a number in a template string.\<close>

definition digit :: "nat \<Rightarrow> char" where
  "digit n = ''0123456789'' ! n"

function show_digits :: "int \<Rightarrow> string" where
  "show_digits n =
     (if n < 10 then [digit (nat n)] else show_digits (n div 10) @ [digit (nat (n mod 10))])"
  by pat_completeness auto
termination
  by (relation "measure nat") auto

declare show_digits.simps [simp del]

definition show_int :: "int \<Rightarrow> string" where
  "show_int i = (if i < 0 then ''-'' @ show_digits (- i) else show_digits i)"

definition show_nat :: "nat \<Rightarrow> string" where
  "show_nat n = show_digits (int n)"

fun join :: "string \<Rightarrow> string list \<Rightarrow> string" where
  "join sep [] = []"
| "join sep [x] = x"
| "join sep (x # y # ys) = x @ sep @ join sep (y # ys)"

section \<open>Event data (azuro.ts)\<close>

text \<open>\<open>startsAt\<close> is the decimal string of a Unix time in seconds in the source; the
  code only uses it through \<open>Number(startsAt)\<close>, and the field here is that number.
  \<open>participants\<close> holds the names, in order.\<close>

record Game =
  startsAt :: int
  participants :: "string list"
  sport_slug :: string
  league_slug :: string
  country_slug :: string

record Attachment =
  url :: string
  contentType :: string

record TweetData =
  tweet_text :: string
  sportSlug :: string
  countrySlug :: string
  leagueSlug :: string
  leagueId :: string
  games :: "Game list"
  attachments :: "Attachment list"

record GamesData =
  tweets :: "TweetData list"

text \<open>The table \<open>leagues\<close>, in the order of its keys.  The emoji field is not used by
  the code and is left out; the label of Europe/London is chosen when the module loads
  and replaced per game by \<open>convertUnixTimeToZone\<close>.\<close>

record LeagueInfo =
  league_id :: string
  timeZones :: "(string \<times> string) list"
  image :: string

definition leagues :: "(string \<times> LeagueInfo) list" where
  "leagues =
     [(''NHL'', \<lparr>league_id = ''32_United States_NHL'',
                timeZones = [(''America/New_York'', ''ET''), (''America/Los_Angeles'', ''PT'')],
                image = ''NHL_GAMEDAY.png''\<rparr>),
      (''NBA'', \<lparr>league_id = ''31_United States_NBA'',
                timeZones = [(''America/New_York'', ''ET''), (''America/Los_Angeles'', ''PT'')],
                image = ''NBA_GAMEDAY.png''\<rparr>),
      (''MLB'', \<lparr>league_id = ''28_United States_MLB'',
                timeZones = [(''America/New_York'', ''ET''), (''America/Los_Angeles'', ''PT'')],
                image = ''MLB_GAMEDAY.png''\<rparr>),
      (''EPL'', \<lparr>league_id = ''33_England_Premier League'',
                timeZones = [(''Europe/London'', ''GMT'')],
                image = ''EPL_GAMEDAY.png''\<rparr>)]"

subsection \<open>\<open>safeAPICall\<close>\<close>

text \<open>What the parsed reply of the subgraph can be, as far as \<open>response.data.games\<close>
  tells: \<open>NoData\<close> is any value on which \<open>response.data.games\<close> throws (\<open>undefined\<close>,
  \<open>null\<close>, an object without \<open>data\<close>); \<open>Data None\<close> has a \<open>data\<close> object without
  \<open>games\<close>, so the events are \<open>undefined\<close>.  An attempt fails when \<open>fetch\<close> throws,
  the status is not ok or the body is not JSON.  The network is a function from the
  number of the attempt to what it gives.\<close>

datatype api_json = NoData | Data "Game list option"

datatype attempt = Failed error | Replied api_json

text \<open>The loop \<open>while (retries <= maxRetries)\<close>, entered with \<open>retries\<close>; each failed
  attempt adds one, so attempt number \<open>retries\<close> is the one made.  Leaving the loop by
  its condition returns \<open>undefined\<close>.  The pause of \<open>retryDelay\<close> between attempts has
  no other effect.\<close>

function safeAPICall_from ::
  "(nat \<Rightarrow> attempt) \<Rightarrow> string \<Rightarrow> nat \<Rightarrow> api_json \<Rightarrow> bool \<Rightarrow> nat
     \<Rightarrow> log_entry list \<times> (error + api_json)" where
  "safeAPICall_from net name maxRetries defaultValue throwOnError retries =
     (if retries \<le> maxRetries then
        (case net retries of
           Replied j \<Rightarrow> ([], Inr j)
         | Failed e \<Rightarrow>
             (let l = LogError (''API call to '' @ name @ '' failed (attempt ''
                          @ show_nat (retries + 1) @ ''/'' @ show_nat (maxRetries + 1) @ '')'')
              in if retries + 1 > maxRetries then
                   (if throwOnError then ([l], Inl e)
                    else ([l, LogError (''Max retries reached for '' @ name
                                 @ '', returning default value'')], Inr defaultValue))
                 else (case safeAPICall_from net name maxRetries defaultValue throwOnError
                               (retries + 1) of
                         (ls, r) \<Rightarrow> (l # ls, r))))
      else ([], Inr NoData))"
  by pat_completeness auto
termination
  by (relation "measure (\<lambda>(net, name, maxRetries, d, t, retries). Suc maxRetries - retries)") auto

declare safeAPICall_from.simps [simp del]

definition safeAPICall ::
  "(nat \<Rightarrow> attempt) \<Rightarrow> string \<Rightarrow> nat \<Rightarrow> api_json \<Rightarrow> bool
     \<Rightarrow> log_entry list \<times> (error + api_json)" where
  "safeAPICall net name maxRetries defaultValue throwOnError =
     safeAPICall_from net name maxRetries defaultValue throwOnError 0"

subsection \<open>\<open>getLeagueEvents\<close> and \<open>getGames\<close>\<close>

text \<open>Everything \<open>getGames\<close> takes from outside the program: the network per league
  identifier, the file system, the random choice of a title from \<open>leagueTitles\<close>, the
  rendering of an instant in a zone by \<open>Intl.DateTimeFormat\<close>, and the working
  directory.\<close>

record azuro_io =
  api :: "string \<Rightarrow> nat \<Rightarrow> attempt"
  existsSync :: "string \<Rightarrow> bool"
  randomTitle :: "string \<Rightarrow> string"
  convertUnixTimeToZone :: "int \<Rightarrow> string \<times> string \<Rightarrow> string"
  cwd :: string

definition getLeagueEvents ::
  "azuro_io \<Rightarrow> string \<Rightarrow> log_entry list \<times> (error + Game list option)" where
  "getLeagueEvents io lid =
     (case safeAPICall (api io lid) ''get league games'' 3 (Data (Some [])) False of
        (l, Inl e) \<Rightarrow> (l, Inl e)
      | (l, Inr NoData) \<Rightarrow> (l, Inl TypeError)
      | (l, Inr (Data g)) \<Rightarrow> (l, Inr g))"

text \<open>\<open>Promise.all\<close> over the callbacks of a \<open>map\<close>: every callback runs and logs
  (the log lines are kept in the order of the list); the whole rejects when one of them
  does (here with the first error in the order of the list; the \<open>catch\<close> of
  \<open>getGames\<close> treats every error alike).\<close>

fun collect :: "(log_entry list \<times> (error + 'a)) list \<Rightarrow> log_entry list \<times> (error + 'a list)" where
  "collect [] = ([], Inr [])"
| "collect ((l, r) # rest) =
     (case collect rest of
        (ls, rs) \<Rightarrow>
          (l @ ls,
           case r of
             Inl e \<Rightarrow> Inl e
           | Inr x \<Rightarrow> (case rs of Inl e \<Rightarrow> Inl e | Inr xs \<Rightarrow> Inr (x # xs))))"

text \<open>A synchronous \<open>map\<close> whose callback can throw: the first throw ends it, and
  the callbacks after it do not run.\<close>

fun map_sync ::
  "('a \<Rightarrow> log_entry list \<times> (error + 'b)) \<Rightarrow> 'a list \<Rightarrow> log_entry list \<times> (error + 'b list)" where
  "map_sync f [] = ([], Inr [])"
| "map_sync f (x # xs) =
     (case f x of
        (l, Inl e) \<Rightarrow> (l, Inl e)
      | (l, Inr y) \<Rightarrow>
          (case map_sync f xs of
             (ls, Inl e) \<Rightarrow> (l @ ls, Inl e)
           | (ls, Inr ys) \<Rightarrow> (l @ ls, Inr (y # ys))))"

text \<open>The callback of \<open>leaguesToFetch.map\<close>.  \<open>events.length\<close> throws when the events
  are \<open>undefined\<close>.\<close>

definition fetchLeague ::
  "azuro_io \<Rightarrow> string \<Rightarrow> log_entry list \<times> (error + string \<times> Game list)" where
  "fetchLeague io league =
     (case map_of leagues league of
        None \<Rightarrow> ([], Inr (league, []))
      | Some info \<Rightarrow>
          (case getLeagueEvents io (league_id info) of
             (l, Inl e) \<Rightarrow> (l, Inl e)
           | (l, Inr None) \<Rightarrow> (l, Inl TypeError)
           | (l, Inr (Some events)) \<Rightarrow>
               (l @ (if length events > 0
                     then [LogInfo (''AZURO: Found '' @ show_nat (length events)
                                      @ '' games for '' @ league),
                           LogInfo (''AZURO: Games for '' @ league @ '':'' @ nl)]
                     else []),
                Inr (league, events))))"

text \<open>One line per game; \<open>event.participants[1].name\<close> throws when there are fewer
  than two participants.\<close>

fun gameLines :: "string \<Rightarrow> Game list \<Rightarrow> error + string" where
  "gameLines league [] = Inr []"
| "gameLines league (event # rest) =
     (case participants event of
        p0 # p1 # _ \<Rightarrow>
          (case gameLines league rest of
             Inl e \<Rightarrow> Inl e
           | Inr others \<Rightarrow>
               Inr (''- '' @ p0 @ '' '' @ (if league = ''EPL'' then ''vs'' else ''@'')
                      @ '' '' @ p1 @ nl @ others))
      | _ \<Rightarrow> Inl TypeError)"

text \<open>The events grouped by start time: the keys of \<open>timeGroups\<close> in the order of
  \<open>Object.entries\<close>, which for events already sorted is the order of first
  appearance.\<close>

definition timeGroups :: "Game list \<Rightarrow> (int \<times> Game list) list" where
  "timeGroups events =
     map (\<lambda>t. (t, filter (\<lambda>e. startsAt e = t) events)) (remdups (map startsAt events))"

fun formatGroups ::
  "azuro_io \<Rightarrow> string \<Rightarrow> LeagueInfo \<Rightarrow> (int \<times> Game list) list \<Rightarrow> error + string" where
  "formatGroups io league info [] = Inr []"
| "formatGroups io league info ((time, groupEvents) # rest) =
     (case gameLines league groupEvents of
        Inl e \<Rightarrow> Inl e
      | Inr ls \<Rightarrow>
          (case formatGroups io league info rest of
             Inl e \<Rightarrow> Inl e
           | Inr others \<Rightarrow>
               Inr (join '' / '' (map (convertUnixTimeToZone io time) (timeZones info)) @ nl
                      @ ls @ (if rest \<noteq> [] then nl else []) @ others)))"

text \<open>The callback of \<open>leaguesWithGames.map\<close>: sort the events by start time (the
  sort of JavaScript is stable, as \<open>sort_key\<close> is), build the text, take the slugs of
  the first game, attach the image when the file exists.  \<open>None\<close> is the \<open>null\<close> that
  \<open>filter(Boolean)\<close> drops.\<close>

definition formatLeague ::
  "azuro_io \<Rightarrow> string \<times> Game list \<Rightarrow> log_entry list \<times> (error + TweetData option)" where
  "formatLeague io le =
     (case le of
        (league, events0) \<Rightarrow>
          (case map_of leagues league of
             None \<Rightarrow> ([], Inr None)
           | Some leagueInfo \<Rightarrow>
               (let events = sort_key startsAt events0
                in case formatGroups io league leagueInfo (timeGroups events) of
                     Inl e \<Rightarrow> ([], Inl e)
                   | Inr body \<Rightarrow>
                       (case events of
                          [] \<Rightarrow> ([], Inl TypeError)
                        | firstGame # _ \<Rightarrow>
                            (let imagePath = cwd io @ ''/assets/'' @ image leagueInfo
                             in ([LogInfo ''Checking image path:'', LogInfo ''Tweet attachments:''],
                                 Inr (Some \<lparr>tweet_text = randomTitle io league @ nl @ nl @ body,
                                            sportSlug = sport_slug firstGame,
                                            countrySlug = country_slug firstGame,
                                            leagueSlug = league_slug firstGame,
                                            leagueId = league_id leagueInfo,
                                            games = events,
                                            attachments =
                                              (if existsSync io imagePath
                                               then [\<lparr>url = imagePath, contentType = ''image/png''\<rparr>]
                                               else [])\<rparr>)))))))"

text \<open>The body of the \<open>try\<close> of \<open>getGames\<close>.  The optional argument \<open>leagueId\<close> is
  \<open>id_opt\<close>; an empty string is falsy, as a missing one.\<close>

definition leaguesToFetch :: "string option \<Rightarrow> string list" where
  "leaguesToFetch id_opt =
     (case id_opt of
        None \<Rightarrow> map fst leagues
      | Some lid \<Rightarrow>
          (if lid = [] then map fst leagues
           else (case find (\<lambda>(k, config). league_id config = lid) leagues of
                   Some (k, _) \<Rightarrow> [k]
                 | None \<Rightarrow> [])))"

definition getGames_try ::
  "azuro_io \<Rightarrow> string option \<Rightarrow> log_entry list \<times> (error + GamesData)" where
  "getGames_try io id_opt =
     (case collect (map (fetchLeague io) (leaguesToFetch id_opt)) of
        (l1, Inl e) \<Rightarrow> (LogInfo ''AZURO: Fetching games'' # l1, Inl e)
      | (l1, Inr results) \<Rightarrow>
          (let leaguesWithGames = filter (\<lambda>(league, events). length events > 0) results
           in if length leaguesWithGames = 0
              then (LogInfo ''AZURO: Fetching games'' # l1 @ [LogInfo ''AZURO: No games found''],
                    Inr \<lparr>tweets = []\<rparr>)
              else (case map_sync (formatLeague io) leaguesWithGames of
                      (l2, Inl e) \<Rightarrow> (LogInfo ''AZURO: Fetching games'' # l1 @ l2, Inl e)
                    | (l2, Inr formatted) \<Rightarrow>
                        (LogInfo ''AZURO: Fetching games'' # l1 @ l2
                           @ [LogInfo ''AZURO: Generated tweets''],
                         Inr \<lparr>tweets = List.map_filter id formatted\<rparr>))))"

text \<open>\<open>getGames\<close>: the \<open>catch\<close> logs the error and returns no tweets.\<close>

definition getGames ::
  "azuro_io \<Rightarrow> string option \<Rightarrow> log_entry list \<times> (error + GamesData)" where
  "getGames io id_opt =
     (case getGames_try io id_opt of
        (l, Inl e) \<Rightarrow> (l @ [LogError ''AZURO: Error fetching games''], Inr \<lparr>tweets = []\<rparr>)
      | (l, Inr r) \<Rightarrow> (l, Inr r))"

section \<open>Flags and constants (config.ts)\<close>

record Env =
  RUN_ON_START :: bool
  POST_ON_START :: bool
  SUPPORTS_NOTETWEET :: bool
  TWITTER_DRY_RUN :: bool

definition THREAD_DELAY_MS :: int where
  "THREAD_DELAY_MS = 2000"

definition MAX_GAMES_STANDARD_TWEET :: nat where
  "MAX_GAMES_STANDARD_TWEET = 5"

section \<open>Tweet texts (tweet-formatter.ts)\<close>

text \<open>\<open>s.split('\n')\<close>: the pieces between newlines, at least one piece.\<close>

fun split_on :: "char \<Rightarrow> string \<Rightarrow> string list" where
  "split_on c [] = [[]]"
| "split_on c (x # xs) =
     (if x = c then [] # split_on c xs
      else (case split_on c xs of
              [] \<Rightarrow> [[x]]
            | piece # pieces \<Rightarrow> (x # piece) # pieces))"

text \<open>The loop of \<open>formatTweetText\<close> over the lines from index \<open>i\<close>, with
  \<open>gameCount\<close> game lines seen so far: the index of the first game line beyond the
  limit, or \<open>None\<close> for the \<open>-1\<close> the loop starts with.\<close>

fun cutoffIndex :: "string list \<Rightarrow> nat \<Rightarrow> nat \<Rightarrow> nat option" where
  "cutoffIndex [] i gameCount = None"
| "cutoffIndex (line # rest) i gameCount =
     (if take 2 line = ''- '' then
        (if gameCount + 1 > MAX_GAMES_STANDARD_TWEET then Some i
         else cutoffIndex rest (i + 1) (gameCount + 1))
      else cutoffIndex rest (i + 1) gameCount)"

definition formatTweetText :: "Env \<Rightarrow> TweetData \<Rightarrow> string" where
  "formatTweetText env tweetData =
     (if \<not> SUPPORTS_NOTETWEET env \<and> length (games tweetData) > MAX_GAMES_STANDARD_TWEET then
        (let lines = split_on (CHR 0x0A) (tweet_text tweetData)
         in case cutoffIndex lines 0 0 of
              None \<Rightarrow> tweet_text tweetData
            | Some k \<Rightarrow>
                (if k > 0 then
                   join nl (take k lines
                     @ [nl @ ''+''
                          @ show_nat (length (games tweetData) - MAX_GAMES_STANDARD_TWEET)
                          @ '' more games. Check our website for the full schedule!''])
                 else tweet_text tweetData))
      else tweet_text tweetData)"

definition generateLinkTweet :: "TweetData \<Rightarrow> string" where
  "generateLinkTweet tweetData =
     ''Bet prematch: https://pinwin.xyz/?sport='' @ sportSlug tweetData
       @ ''&country='' @ countrySlug tweetData @ ''&league='' @ leagueSlug tweetData @ nl
       @ ''Bet LIVE: https://pinwin.xyz/?sport='' @ sportSlug tweetData @ ''&live=true''"

section \<open>Attachments (media.ts)\<close>

type_synonym buffer = "nat list"

record MediaData =
  bytes :: buffer
  mediaType :: string

text \<open>\<open>prepareMediaData\<close>: read every file; one failed read rejects the whole.\<close>

fun prepareMediaData ::
  "(string \<Rightarrow> error + buffer) \<Rightarrow> Attachment list \<Rightarrow> error + MediaData list" where
  "prepareMediaData readFile [] = Inr []"
| "prepareMediaData readFile (attachment # rest) =
     (case readFile (url attachment) of
        Inl e \<Rightarrow> Inl e
      | Inr content \<Rightarrow>
          (case prepareMediaData readFile rest of
             Inl e \<Rightarrow> Inl e
           | Inr others \<Rightarrow> Inr (\<lparr>bytes = content, mediaType = contentType attachment\<rparr> # others)))"

section \<open>The Twitter client (twitter.ts)\<close>

text \<open>
  What a call of the client returns, as far as \<open>postLeagueTweet\<close> looks at it.  A
  \<open>Response\<close> has the flag \<open>ok\<close> and a method \<open>json()\<close>, which yields a body or
  throws; the body of a dry-run response is built when \<open>json()\<close> is called and reads
  the clock then, so \<open>json\<close> takes the clock reading.  \<open>Parsed\<close> is a plain object
  that already is the body.  A body either has
  \<open>data.create_tweet.tweet_results\<close> or \<open>data.notetweet_create.tweet_results\<close>, with
  or without \<open>result\<close>, or is anything else.  \<open>created_at\<close> is kept as the instant
  that \<open>toISOString\<close> renders.
\<close>

record tweet_legacy =
  full_text :: string
  created_at :: instant
  conversation_id_str :: string
  in_reply_to_status_id_str :: "string option"

record tweet_result =
  rest_id :: "string option"
  legacy :: "tweet_legacy option"

datatype json_body =
    CreateTweet "tweet_result option"
  | NotetweetCreate "tweet_result option"
  | OtherBody

datatype publisher_value =
    Response bool "instant \<Rightarrow> error + json_body"
  | Parsed json_body

datatype publisher_call =
    SendTweet string "string option" "MediaData list option"
  | SendNoteTweet string "string option" "MediaData list option"

text \<open>The platform at one call of the client: whether the cookies give a logged-in
  session, whether the login with credentials does, and what the scraper does with the
  call.  (\<open>setCookies\<close> is taken to succeed.)\<close>

record twitter_io =
  isLoggedIn_cookies :: "error + bool"
  login_credentials :: "error + bool"
  scraper :: "publisher_call \<Rightarrow> error + publisher_value"

record TwitterClient =
  username :: string
  password :: "string option"
  isDryRun :: bool

text \<open>The client that the constructor of \<open>AzuroScheduler\<close> builds: cookies, user
  name and the dry-run flag, no password.  (The cookies and the e-mail address are only
  handed to the scraper and are not part of the model.)\<close>

definition schedulerClient :: "Env \<Rightarrow> string \<Rightarrow> TwitterClient" where
  "schedulerClient env user = \<lparr>username = user, password = None, isDryRun = TWITTER_DRY_RUN env\<rparr>"

definition getLoggedInScraper :: "TwitterClient \<Rightarrow> twitter_io \<Rightarrow> error + unit" where
  "getLoggedInScraper client tio =
     (let loggedIn = (case isLoggedIn_cookies tio of Inl e \<Rightarrow> False | Inr b \<Rightarrow> b);
          loggedIn2 =
            (if \<not> loggedIn \<and> username client \<noteq> []
                 \<and> (case password client of None \<Rightarrow> False | Some p \<Rightarrow> p \<noteq> [])
             then (case login_credentials tio of Inl e \<Rightarrow> loggedIn | Inr b \<Rightarrow> b)
             else loggedIn)
      in if \<not> loggedIn2
         then Inl (Error ''Unable to log in to Twitter: cookies and credentials both failed.'')
         else Inr ())"

text \<open>\<open>replyToTweetId || null\<close>.\<close>

definition or_null :: "string option \<Rightarrow> string option" where
  "or_null replyToTweetId =
     (case replyToTweetId of None \<Rightarrow> None | Some r \<Rightarrow> if r = [] then None else Some r)"

definition dryRunTweet :: "string \<Rightarrow> string option \<Rightarrow> instant \<Rightarrow> error + json_body" where
  "dryRunTweet content replyToTweetId now =
     Inr (CreateTweet (Some
       \<lparr>rest_id = Some (''dry-run-'' @ show_int now),
        legacy = Some \<lparr>full_text = content, created_at = now,
                       conversation_id_str = ''dry-run-conv-'' @ show_int now,
                       in_reply_to_status_id_str = or_null replyToTweetId\<rparr>\<rparr>))"

definition dryRunNoteTweet :: "string \<Rightarrow> string option \<Rightarrow> instant \<Rightarrow> error + json_body" where
  "dryRunNoteTweet content replyToTweetId now =
     Inr (NotetweetCreate (Some
       \<lparr>rest_id = Some (''dry-run-notetweet-'' @ show_int now),
        legacy = Some \<lparr>full_text = content, created_at = now,
                       conversation_id_str = ''dry-run-conv-'' @ show_int now,
                       in_reply_to_status_id_str = or_null replyToTweetId\<rparr>\<rparr>))"

text \<open>\<open>sendTweet\<close> and \<open>sendNoteTweet\<close> return the calls that reached the scraper and
  the value or the error; the \<open>catch\<close> of the live path logs and throws the error
  again.\<close>

definition sendTweet ::
  "TwitterClient \<Rightarrow> twitter_io \<Rightarrow> string \<Rightarrow> string option \<Rightarrow> MediaData list option
     \<Rightarrow> publisher_call list \<times> (error + publisher_value)" where
  "sendTweet client tio content replyToTweetId media =
     (if isDryRun client then ([], Inr (Response True (dryRunTweet content replyToTweetId)))
      else (case getLoggedInScraper client tio of
              Inl e \<Rightarrow> ([], Inl e)
            | Inr u \<Rightarrow>
                ([SendTweet content replyToTweetId media],
                 scraper tio (SendTweet content replyToTweetId media))))"

definition sendNoteTweet ::
  "TwitterClient \<Rightarrow> twitter_io \<Rightarrow> string \<Rightarrow> string option \<Rightarrow> MediaData list option
     \<Rightarrow> publisher_call list \<times> (error + publisher_value)" where
  "sendNoteTweet client tio content replyToTweetId media =
     (if isDryRun client then ([], Inr (Response True (dryRunNoteTweet content replyToTweetId)))
      else (case getLoggedInScraper client tio of
              Inl e \<Rightarrow> ([], Inl e)
            | Inr u \<Rightarrow>
                ([SendNoteTweet content replyToTweetId media],
                 scraper tio (SendNoteTweet content replyToTweetId media))))"

section \<open>Publishing (scheduler.ts, \<open>postLeagueTweet\<close>)\<close>

text \<open>Everything a post takes from outside: the file system, the platform at the main
  call (number 0) and at the reply (number 1), and the clock when the body of each
  result is read.\<close>

record post_io =
  readFile :: "string \<Rightarrow> error + buffer"
  twitter :: "nat \<Rightarrow> twitter_io"
  clock :: "nat \<Rightarrow> instant"

text \<open>\<open>noteTweetResult.data.notetweet_create.tweet_results.result\<close> and then
  \<open>tweetResult.rest_id\<close>: a \<open>TypeError\<close> unless the value is a plain body with that
  path and a result.\<close>

definition noteTweetId :: "publisher_value \<Rightarrow> error + string option" where
  "noteTweetId v =
     (case v of
        Parsed (NotetweetCreate (Some r)) \<Rightarrow> Inr (rest_id r)
      | _ \<Rightarrow> Inl TypeError)"

text \<open>\<open>await response.json()\<close>: a \<open>TypeError\<close> when the value has no method
  \<open>json\<close>.\<close>

definition json :: "publisher_value \<Rightarrow> instant \<Rightarrow> error + json_body" where
  "json v now = (case v of Response ok body \<Rightarrow> body now | Parsed b \<Rightarrow> Inl TypeError)"

text \<open>\<open>tweetBody.data.create_tweet.tweet_results.result\<close> and then
  \<open>tweetResult.rest_id\<close>.\<close>

definition tweetId :: "publisher_value \<Rightarrow> instant \<Rightarrow> error + string option" where
  "tweetId v now =
     (case json v now of
        Inl e \<Rightarrow> Inl e
      | Inr (CreateTweet (Some r)) \<Rightarrow> Inr (rest_id r)
      | Inr _ \<Rightarrow> Inl TypeError)"

text \<open>How a post ends: the thread is complete (main and reply identifiers), the reply
  came back without a result (logged as an error), or the \<open>catch\<close> took an error
  and logged it.\<close>

datatype post_outcome =
    ThreadComplete "string option" "string option"
  | ReplyWithoutResult
  | Caught error

text \<open>A run of \<open>postLeagueTweet\<close>: the calls of the client in order, the calls that
  reached the scraper, and the end.\<close>

record post_run =
  calls :: "publisher_call list"
  sent :: "publisher_call list"
  ending :: "error + post_outcome"

definition mainCall :: "Env \<Rightarrow> string \<Rightarrow> MediaData list option \<Rightarrow> publisher_call" where
  "mainCall env tweetText media =
     (if SUPPORTS_NOTETWEET env then SendNoteTweet tweetText None media
      else SendTweet tweetText None media)"

text \<open>The main post: the call, and the identifier read from what it returns.\<close>

definition mainPost ::
  "Env \<Rightarrow> TwitterClient \<Rightarrow> post_io \<Rightarrow> string \<Rightarrow> MediaData list option
     \<Rightarrow> publisher_call list \<times> (error + string option)" where
  "mainPost env client pio tweetText media =
     (if SUPPORTS_NOTETWEET env then
        (case sendNoteTweet client (twitter pio 0) tweetText None media of
           (s, Inl e) \<Rightarrow> (s, Inl e)
         | (s, Inr v) \<Rightarrow> (s, noteTweetId v))
      else
        (case sendTweet client (twitter pio 0) tweetText None media of
           (s, Inl e) \<Rightarrow> (s, Inl e)
         | (s, Inr v) \<Rightarrow> (s, tweetId v (clock pio 0))))"

text \<open>The media of a post: \<open>None\<close> (the \<open>null\<close> that becomes \<open>undefined\<close>) when there
  are no attachments.\<close>

definition mediaFor :: "post_io \<Rightarrow> TweetData \<Rightarrow> error + MediaData list option" where
  "mediaFor pio tweetData =
     (if length (attachments tweetData) > 0
      then (case prepareMediaData (readFile pio) (attachments tweetData) of
              Inl e \<Rightarrow> Inl e
            | Inr m \<Rightarrow> Inr (Some m))
      else Inr None)"

text \<open>The body of the \<open>try\<close>.  The pause of \<open>THREAD_DELAY_MS\<close> between the two calls
  has no other effect.\<close>

definition postLeagueTweet_try :: "Env \<Rightarrow> TwitterClient \<Rightarrow> post_io \<Rightarrow> TweetData \<Rightarrow> post_run" where
  "postLeagueTweet_try env client pio tweetData =
     (case mediaFor pio tweetData of
        Inl e \<Rightarrow> \<lparr>calls = [], sent = [], ending = Inl e\<rparr>
      | Inr media \<Rightarrow>
          (let tweetText = formatTweetText env tweetData
           in case mainPost env client pio tweetText media of
                (s1, Inl e) \<Rightarrow>
                  \<lparr>calls = [mainCall env tweetText media], sent = s1, ending = Inl e\<rparr>
              | (s1, Inr firstTweetId) \<Rightarrow>
                  (let linkTweet = generateLinkTweet tweetData
                   in case sendTweet client (twitter pio 1) linkTweet firstTweetId None of
                        (s2, r) \<Rightarrow>
                          \<lparr>calls = [mainCall env tweetText media,
                                    SendTweet linkTweet firstTweetId None],
                           sent = s1 @ s2,
                           ending =
                             (case r of
                                Inl e \<Rightarrow> Inl e
                              | Inr replyResult \<Rightarrow>
                                  (case json replyResult (clock pio 1) of
                                     Inl e \<Rightarrow> Inl e
                                   | Inr (CreateTweet (Some reply)) \<Rightarrow>
                                       Inr (ThreadComplete firstTweetId (rest_id reply))
                                   | Inr _ \<Rightarrow> Inr ReplyWithoutResult))\<rparr>)))"

text \<open>\<open>postLeagueTweet\<close>: the \<open>catch\<close> logs the error.\<close>

definition postLeagueTweet :: "Env \<Rightarrow> TwitterClient \<Rightarrow> post_io \<Rightarrow> TweetData \<Rightarrow> post_run" where
  "postLeagueTweet env client pio tweetData =
     (let run = postLeagueTweet_try env client pio tweetData
      in case ending run of
           Inl e \<Rightarrow> run\<lparr>ending := Inr (Caught e)\<rparr>
         | Inr outcome \<Rightarrow> run)"

section \<open>The scheduling engine (scheduler.ts)\<close>

text \<open>
  The timers of the runtime that the scheduler arms.  A timer is armed by
  \<open>setTimeout\<close> (one shot) or \<open>setInterval\<close> (repeating) with a delay and a callback;
  the three callbacks of the class are the first daily fetch of a league, the repeated
  daily fetch of a league, and the publication of a tweet (with the league in whose
  cycle it was armed).  \<open>armedAt\<close> is the clock when the timer was armed; a delay is
  kept as the program passes it (the runtime replaces a delay below 1 ms or above
  \<open>2^31 - 1\<close> ms by 1 ms; the fetch asks for the games of the next 18 hours only).  The two
  pauses awaited inside an operation in flight (the retry delay of \<open>safeAPICall\<close>,
  the thread delay of \<open>postLeagueTweet\<close>) only resume that operation and are part of
  it.
\<close>

datatype callback =
    DailyFirst string
  | DailyRepeat string
  | PostTweet string TweetData

record timer =
  handle :: nat
  repeating :: bool
  armedAt :: instant
  delay :: int
  callback :: callback

text \<open>Who started a fetch that is in flight: \<open>fetchAndScheduleLeague\<close> in a daily
  cycle, or \<open>start\<close>.\<close>

datatype origin = Cycle | Startup

text \<open>The state: the armed timers, the next fresh handle, the map
  \<open>leagueSchedules\<close> in insertion order, the calls of \<open>getGames\<close> in flight, and the
  runs of \<open>postLeagueTweet\<close> so far.\<close>

record world =
  timers :: "timer list"
  nextHandle :: nat
  leagueSchedules :: "(string \<times> nat) list"
  fetching :: "(string \<times> origin) list"
  posts :: "post_run list"

definition world0 :: world where
  "world0 = \<lparr>timers = [], nextHandle = 0, leagueSchedules = [], fetching = [], posts = []\<rparr>"

definition arm :: "bool \<Rightarrow> instant \<Rightarrow> int \<Rightarrow> callback \<Rightarrow> world \<Rightarrow> world" where
  "arm rep now d cb w =
     w\<lparr>timers := timers w @ [\<lparr>handle = nextHandle w, repeating = rep, armedAt = now,
                                 delay = d, callback = cb\<rparr>],
       nextHandle := nextHandle w + 1\<rparr>"

definition setTimeout :: "instant \<Rightarrow> int \<Rightarrow> callback \<Rightarrow> world \<Rightarrow> world" where
  "setTimeout now d cb w = arm False now d cb w"

definition setInterval :: "instant \<Rightarrow> int \<Rightarrow> callback \<Rightarrow> world \<Rightarrow> world" where
  "setInterval now d cb w = arm True now d cb w"

definition clearTimeout :: "nat \<Rightarrow> world \<Rightarrow> world" where
  "clearTimeout h w = w\<lparr>timers := filter (\<lambda>t. handle t \<noteq> h) (timers w)\<rparr>"

text \<open>\<open>Map.prototype.set\<close>: a known key keeps its place, a new one goes last.\<close>

fun Map_set :: "string \<Rightarrow> nat \<Rightarrow> (string \<times> nat) list \<Rightarrow> (string \<times> nat) list" where
  "Map_set k v [] = [(k, v)]"
| "Map_set k v ((k', v') # m) = (if k' = k then (k, v) # m else (k', v') # Map_set k v m)"

text \<open>\<open>setupLeagueScheduler\<close>: arm the first daily fetch after the computed wait and
  keep its handle.  The handle returned by \<open>setTimeout\<close> is the one fresh before the
  call.\<close>

definition setupLeagueScheduler ::
  "tza \<Rightarrow> instant \<Rightarrow> string \<Rightarrow> LeagueFetchConfig \<Rightarrow> world \<Rightarrow> world" where
  "setupLeagueScheduler z now league config w =
     (let w1 = setTimeout now (timeUntilNextFetch z now config) (DailyFirst league) w
      in w1\<lparr>leagueSchedules := Map_set league (nextHandle w) (leagueSchedules w1)\<rparr>)"

text \<open>\<open>scheduleLeagueTweet\<close>: one hour before the first game, if that is still
  ahead.\<close>

definition scheduleLeagueTweet :: "string \<Rightarrow> TweetData \<Rightarrow> instant \<Rightarrow> world \<Rightarrow> world" where
  "scheduleLeagueTweet league tweetData now w =
     (case games tweetData of
        [] \<Rightarrow> w
      | firstGame # rest \<Rightarrow>
          (let postTime = startsAt firstGame * 1000 - 60 * 60 * 1000;
               timeUntilPost = postTime - now
           in if timeUntilPost > 0
              then setTimeout now timeUntilPost (PostTweet league tweetData) w
              else w))"

text \<open>\<open>fetchAndScheduleLeague\<close> up to its \<open>await\<close>: \<open>leagues[league].leagueId\<close>
  throws for an unknown key, which the \<open>catch\<close> logs; otherwise the fetch is in
  flight.\<close>

definition fetchAndScheduleLeague :: "string \<Rightarrow> world \<Rightarrow> world" where
  "fetchAndScheduleLeague league w =
     (case map_of leagues league of
        None \<Rightarrow> w
      | Some info \<Rightarrow> w\<lparr>fetching := fetching w @ [(league, Cycle)]\<rparr>)"

text \<open>\<open>fetchAndScheduleLeague\<close> after its \<open>await\<close>, with what \<open>getGames\<close>
  returned.\<close>

definition fetchAndScheduleLeague_resume ::
  "string \<Rightarrow> GamesData \<Rightarrow> instant \<Rightarrow> world \<Rightarrow> world" where
  "fetchAndScheduleLeague_resume league gamesData now w =
     (if length (tweets gamesData) = 0 then w
      else (case map_of leagues league of
              None \<Rightarrow> w
            | Some info \<Rightarrow>
                (case find (\<lambda>t. leagueId t = league_id info) (tweets gamesData) of
                   None \<Rightarrow> w
                 | Some leagueTweetData \<Rightarrow> scheduleLeagueTweet league leagueTweetData now w)))"

text \<open>A run of \<open>postLeagueTweet\<close> does not touch the timers or the map; it is kept
  whole in \<open>posts\<close>.\<close>

definition runPost :: "Env \<Rightarrow> TwitterClient \<Rightarrow> post_io \<Rightarrow> TweetData \<Rightarrow> world \<Rightarrow> world" where
  "runPost env client pio tweetData w =
     w\<lparr>posts := posts w @ [postLeagueTweet env client pio tweetData]\<rparr>"

text \<open>The callback of the fetches that \<open>start\<close> makes, after its \<open>await\<close>.\<close>

definition startup_resume ::
  "Env \<Rightarrow> TwitterClient \<Rightarrow> post_io \<Rightarrow> string \<Rightarrow> GamesData \<Rightarrow> instant \<Rightarrow> world \<Rightarrow> world" where
  "startup_resume env client pio league gamesData now w =
     (if length (tweets gamesData) > 0 then
        (case map_of leagues league of
           None \<Rightarrow> w
         | Some info \<Rightarrow>
             (case find (\<lambda>t. leagueId t = league_id info) (tweets gamesData) of
                None \<Rightarrow> w
              | Some leagueTweetData \<Rightarrow>
                  (let w1 = (if RUN_ON_START env
                             then scheduleLeagueTweet league leagueTweetData now w else w)
                   in if POST_ON_START env then runPost env client pio leagueTweetData w1
                      else w1)))
      else w)"

text \<open>\<open>start\<close>: one daily timer per entry of \<open>LEAGUE_FETCH_TIMES\<close>, then the
  immediate fetches when a flag asks for them.  The clock is read once.\<close>

definition start :: "Env \<Rightarrow> tza \<Rightarrow> instant \<Rightarrow> world \<Rightarrow> world" where
  "start env z now w =
     (let w1 = foldl (\<lambda>w' (league, config). setupLeagueScheduler z now league config w')
                 w LEAGUE_FETCH_TIMES
      in if RUN_ON_START env \<or> POST_ON_START env
         then w1\<lparr>fetching := fetching w1 @ map (\<lambda>league. (league, Startup)) (map fst leagues)\<rparr>
         else w1)"

text \<open>\<open>stop\<close>: clear every timer whose handle is a value of the map, then clear the
  map.\<close>

definition stop :: "world \<Rightarrow> world" where
  "stop w =
     (foldl (\<lambda>w' h. clearTimeout h w') w (map snd (leagueSchedules w)))
       \<lparr>leagueSchedules := []\<rparr>"

text \<open>What happens when the runtime fires the armed timer with handle \<open>h\<close> at
  \<open>now\<close>.  A one-shot timer is no longer armed when its callback runs.  The callback
  of the first daily fetch starts the fetch and then arms the repeating timer of 24
  hours, whose handle replaces the old one in the map.\<close>

definition fire :: "Env \<Rightarrow> TwitterClient \<Rightarrow> nat \<Rightarrow> instant \<Rightarrow> post_io \<Rightarrow> world \<Rightarrow> world" where
  "fire env client h now pio w =
     (case find (\<lambda>t. handle t = h) (timers w) of
        None \<Rightarrow> w
      | Some t \<Rightarrow>
          (case callback t of
             DailyFirst league \<Rightarrow>
               (let w1 = fetchAndScheduleLeague league (clearTimeout h w);
                    w2 = setInterval now (24 * 60 * 60 * 1000) (DailyRepeat league) w1
                in w2\<lparr>leagueSchedules := Map_set league (nextHandle w1) (leagueSchedules w2)\<rparr>)
           | DailyRepeat league \<Rightarrow> fetchAndScheduleLeague league w
           | PostTweet league tweetData \<Rightarrow> runPost env client pio tweetData (clearTimeout h w)))"

text \<open>What can happen to a running engine: a timer fires, a fetch in flight completes
  with a result of \<open>getGames\<close>, or \<open>stop\<close> is called.  An event carries the clock and
  the outside world of the post it may run.\<close>

datatype event =
    Fire nat instant post_io
  | FetchDone string origin GamesData instant post_io
  | Stop

definition step :: "Env \<Rightarrow> TwitterClient \<Rightarrow> event \<Rightarrow> world \<Rightarrow> world" where
  "step env client ev w =
     (case ev of
        Fire h now pio \<Rightarrow> fire env client h now pio w
      | FetchDone league org gamesData now pio \<Rightarrow>
          (if (league, org) \<in> set (fetching w) then
             (let w1 = w\<lparr>fetching := remove1 (league, org) (fetching w)\<rparr>
              in case org of
                   Cycle \<Rightarrow> fetchAndScheduleLeague_resume league gamesData now w1
                 | Startup \<Rightarrow> startup_resume env client pio league gamesData now w1)
           else w)
      | Stop \<Rightarrow> stop w)"

definition run :: "Env \<Rightarrow> TwitterClient \<Rightarrow> event list \<Rightarrow> world \<Rightarrow> world" where
  "run env client evs w = foldl (\<lambda>w' ev. step env client ev w') w evs"

text \<open>The daily timers of a league among the armed timers, and the publish timers.\<close>

definition is_daily :: "string \<Rightarrow> timer \<Rightarrow> bool" where
  "is_daily league t \<longleftrightarrow> callback t = DailyFirst league \<or> callback t = DailyRepeat league"

definition daily_timers :: "string \<Rightarrow> world \<Rightarrow> timer list" where
  "daily_timers league w = filter (is_daily league) (timers w)"

definition is_publish :: "timer \<Rightarrow> bool" where
  "is_publish t \<longleftrightarrow> (case callback t of PostTweet league tweetData \<Rightarrow> True | _ \<Rightarrow> False)"

text \<open>All the armed timers of a league: its daily ones and the publish timers armed in
  its cycle.\<close>

definition league_timers :: "string \<Rightarrow> world \<Rightarrow> timer list" where
  "league_timers league w =
     filter (\<lambda>t. case callback t of
                   DailyFirst l \<Rightarrow> l = league
                 | DailyRepeat l \<Rightarrow> l = league
                 | PostTweet l tweetData \<Rightarrow> l = league) (timers w)"

text \<open>The state of the engine proper: everything but the record of the posts.\<close>

definition engine_view :: "world \<Rightarrow> timer list \<times> nat \<times> (string \<times> nat) list \<times> (string \<times> origin) list" where
  "engine_view w = (timers w, nextHandle w, leagueSchedules w, fetching w)"

text \<open>The bookkeeping that holds in every state of a run: the handles of the armed timers
  are distinct and below the next fresh one, and for every league the daily timers that
  are armed are exactly the one whose handle the map holds for it (none when the map has
  no entry).\<close>

definition registered :: "world \<Rightarrow> bool" where
  "registered w \<longleftrightarrow>
     distinct (map handle (timers w))
     \<and> (\<forall>t \<in> set (timers w). handle t < nextHandle w)
     \<and> (\<forall>league. map handle (daily_timers league w) =
           (case map_of (leagueSchedules w) league of None \<Rightarrow> [] | Some h \<Rightarrow> [h]))"

text \<open>The keys of the map are distinct and include every league of
  \<open>LEAGUE_FETCH_TIMES\<close>.\<close>

definition keyed :: "world \<Rightarrow> bool" where
  "keyed w \<longleftrightarrow> distinct (map fst (leagueSchedules w))
               \<and> set (map fst LEAGUE_FETCH_TIMES) \<subseteq> fst ` set (leagueSchedules w)"

section \<open>Concrete outside worlds\<close>

text \<open>Two games of one evening, listed latest first; a world whose subgraph is down,
  one whose subgraph returns the two games for the NBA and nothing for the others, and
  one whose subgraph replies without a \<open>data\<close> object.\<close>

definition game_late :: Game where
  "game_late = \<lparr>startsAt = 1700010000, participants = [''Lakers'', ''Suns''],
                 sport_slug = ''basketball'', league_slug = ''nba'', country_slug = ''united-states''\<rparr>"

definition game_early :: Game where
  "game_early = \<lparr>startsAt = 1700006400, participants = [''Celtics'', ''Knicks''],
                  sport_slug = ''basketball'', league_slug = ''nba'', country_slug = ''united-states''\<rparr>"

definition io_down :: azuro_io where
  "io_down = \<lparr>api = (\<lambda>lid k. Failed (Error ''fetch failed'')),
               existsSync = (\<lambda>p. False),
               randomTitle = (\<lambda>league. ''NBA TONIGHT!''),
               convertUnixTimeToZone = (\<lambda>t z. ''19:00 '' @ snd z),
               cwd = ''/app''\<rparr>"

definition io_nba :: azuro_io where
  "io_nba = \<lparr>api = (\<lambda>lid k. if lid = ''31_United States_NBA''
                              then Replied (Data (Some [game_late, game_early]))
                              else Replied (Data (Some []))),
              existsSync = (\<lambda>p. False),
              randomTitle = (\<lambda>league. ''NBA TONIGHT!''),
              convertUnixTimeToZone = (\<lambda>t z. ''19:00 '' @ snd z),
              cwd = ''/app''\<rparr>"

definition io_broken :: azuro_io where
  "io_broken = \<lparr>api = (\<lambda>lid k. Replied NoData),
                 existsSync = (\<lambda>p. False),
                 randomTitle = (\<lambda>league. ''NBA TONIGHT!''),
                 convertUnixTimeToZone = (\<lambda>t z. ''19:00 '' @ snd z),
                 cwd = ''/app''\<rparr>"

text \<open>A live client and a dry-run client, the flags all off, a platform that accepts
  every call, and the tweet data of the two games above.  The run below starts on a host
  in Madrid at 2023-11-14T13:00:00Z (14:00 local time); the handles of the daily timers
  are 0 (EPL), 1 (NBA), 2 (NHL) and 3 (MLB).\<close>

definition env_off :: Env where
  "env_off = \<lparr>RUN_ON_START = False, POST_ON_START = False, SUPPORTS_NOTETWEET = False,
               TWITTER_DRY_RUN = False\<rparr>"

definition client_live :: TwitterClient where
  "client_live = \<lparr>username = ''azuro'', password = None, isDryRun = False\<rparr>"

definition client_dry :: TwitterClient where
  "client_dry = \<lparr>username = ''azuro'', password = None, isDryRun = True\<rparr>"

definition pio_ok :: post_io where
  "pio_ok = \<lparr>readFile = (\<lambda>path. Inr []),
              twitter = (\<lambda>n. \<lparr>isLoggedIn_cookies = Inr True, login_credentials = Inr False,
                               scraper = (\<lambda>c. Inr (Response True (\<lambda>now.
                                  Inr (CreateTweet (Some \<lparr>rest_id = Some ''1850'',
                                                          legacy = None\<rparr>)))))\<rparr>),
              clock = (\<lambda>n. 1700002800000)\<rparr>"

definition tweet_nba :: TweetData where
  "tweet_nba = \<lparr>tweet_text = ''NBA TONIGHT!'', sportSlug = ''basketball'',
                 countrySlug = ''united-states'', leagueSlug = ''nba'',
                 leagueId = ''31_United States_NBA'', games = [game_early, game_late],
                 attachments = []\<rparr>"

definition started :: world where
  "started = start env_off (fixedZone 3600000) 1699966800000 world0"

text \<open>A platform on which no login works, and one that accepts the main post and
  fails on the reply.\<close>

definition pio_login_fails :: post_io where
  "pio_login_fails =
     \<lparr>readFile = (\<lambda>path. Inr []),
      twitter = (\<lambda>n. \<lparr>isLoggedIn_cookies = Inr False, login_credentials = Inr False,
                       scraper = (\<lambda>c. Inl (Error ''unreachable''))\<rparr>),
      clock = (\<lambda>n. 1700002800000)\<rparr>"

definition pio_reply_fails :: post_io where
  "pio_reply_fails =
     \<lparr>readFile = (\<lambda>path. Inr []),
      twitter = (\<lambda>n. \<lparr>isLoggedIn_cookies = Inr True, login_credentials = Inr False,
                       scraper = (\<lambda>c. if n = 0
                                      then Inr (Response True (\<lambda>now.
                                             Inr (CreateTweet (Some \<lparr>rest_id = Some ''1850'',
                                                                     legacy = None\<rparr>))))
                                      else Inl (Error ''rate limit''))\<rparr>),
      clock = (\<lambda>n. 1700002800000)\<rparr>"

text \<open>A file system without the image, and the tweet data with the image attached.\<close>

definition pio_no_file :: post_io where
  "pio_no_file = pio_ok\<lparr>readFile := (\<lambda>path. Inl (Error ''ENOENT''))\<rparr>"

definition tweet_nba_image :: TweetData where
  "tweet_nba_image =
     tweet_nba\<lparr>attachments := [\<lparr>url = ''/app/assets/NBA_GAMEDAY.png'',
                                    contentType = ''image/png''\<rparr>]\<rparr>"

section \<open>Verification\<close>

subsection \<open>The daily wait\<close>

lemma regular_fixedZone: "regular (fixedZone off) L"
  by (auto simp: regular_def UTC_def LocalTime_def fixedZone_def)

lemma regular_madrid_2024:
  assumes "L < 1711846800000 + 3600000 \<or> (1711846800000 + 7200000 \<le> L \<and> L < 1729990800000 + 3600000)
           \<or> 1729990800000 + 7200000 \<le> L"
  shows "regular madrid_2024 L"
  using assms by (auto simp: regular_def UTC_def LocalTime_def madrid_2024_def)

lemma regular_less: "regular z L \<Longrightarrow> t < UTC z L \<longleftrightarrow> LocalTime z t < L"
  by (simp add: regular_def)

lemma regular_greater: "regular z L \<Longrightarrow> UTC z L < t \<longleftrightarrow> L < LocalTime z t"
  by (simp add: regular_def)

lemma regular_eq: "regular z L \<Longrightarrow> LocalTime z t = L \<longleftrightarrow> t = UTC z L"
  using regular_less [of z L t] regular_greater [of z L t] by auto

lemma regular_le: "regular z L \<Longrightarrow> t \<le> UTC z L \<longleftrightarrow> LocalTime z t \<le> L"
  using regular_greater [of z L t] by auto

lemma time_of_day:
  assumes "0 \<le> h" "h < 24" "0 \<le> m" "m < 60"
  shows "0 \<le> MakeTime h m 0 0" "MakeTime h m 0 0 < msPerDay"
  using assms by (simp_all add: MakeTime_def msPerDay_def)

lemma MakeDate_parts:
  assumes "0 \<le> tm" "tm < msPerDay"
  shows "Day (MakeDate d tm) = d" "TimeWithinDay (MakeDate d tm) = tm"
  using assms by (simp_all add: Day_def TimeWithinDay_def MakeDate_def msPerDay_def)

lemma MakeDate_next: "MakeDate (d + 1) tm = MakeDate d tm + msPerDay"
  by (simp add: MakeDate_def algebra_simps)

lemma day_bounds:
  "MakeDate (Day x) 0 \<le> x" "x < MakeDate (Day x) 0 + msPerDay"
  by (simp_all add: Day_def MakeDate_def msPerDay_def)

lemma between_targets:
  assumes "TimeWithinDay L = tm" "L < x" "x < L + msPerDay"
  shows "TimeWithinDay x \<noteq> tm"
proof
  assume "TimeWithinDay x = tm"
  then have "(x - L) mod msPerDay = 0"
    using assms(1) unfolding TimeWithinDay_def by (metis mod_eq_0_iff_dvd mod_eq_dvd_iff)
  moreover have "0 < x - L" "x - L < msPerDay" using assms by simp_all
  ultimately show False by (simp add: mod_pos_pos_trivial)
qed

lemma setHours_today:
  "setHours z now (fetchHour c) (fetchMinute c) 0 0 = UTC z (todayTarget z now c)"
  by (simp add: setHours_def todayTarget_def)

lemma today_parts:
  assumes "0 \<le> fetchHour c" "fetchHour c < 24" "0 \<le> fetchMinute c" "fetchMinute c < 60"
  shows "Day (todayTarget z now c) = Day (LocalTime z now)"
    and "TimeWithinDay (todayTarget z now c) = MakeTime (fetchHour c) (fetchMinute c) 0 0"
    and "todayTarget z now c - msPerDay < LocalTime z now"
    and "LocalTime z now < todayTarget z now c + msPerDay"
proof -
  let ?tm = "MakeTime (fetchHour c) (fetchMinute c) 0 0"
  have tm: "0 \<le> ?tm" "?tm < msPerDay" using assms by (rule time_of_day)+
  show "Day (todayTarget z now c) = Day (LocalTime z now)"
    and "TimeWithinDay (todayTarget z now c) = ?tm"
    unfolding todayTarget_def using MakeDate_parts [OF tm] by simp_all
  have "todayTarget z now c = MakeDate (Day (LocalTime z now)) 0 + ?tm"
    by (simp add: todayTarget_def MakeDate_def)
  then show "todayTarget z now c - msPerDay < LocalTime z now"
    and "LocalTime z now < todayTarget z now c + msPerDay"
    using day_bounds [of "LocalTime z now"] tm by simp_all
qed

lemma targetTime_today:
  assumes "now \<le> UTC z (todayTarget z now c)"
  shows "targetTime z now c = UTC z (todayTarget z now c)"
  using assms by (simp add: targetTime_def Let_def setHours_today)

lemma targetTime_tomorrow:
  assumes r: "regular z (todayTarget z now c)"
    and hm: "0 \<le> fetchHour c" "fetchHour c < 24" "0 \<le> fetchMinute c" "fetchMinute c < 60"
    and late: "UTC z (todayTarget z now c) < now"
  shows "targetTime z now c = UTC z (todayTarget z now c + msPerDay)"
proof -
  let ?L = "todayTarget z now c"
  have l: "LocalTime z (UTC z ?L) = ?L" using regular_eq [OF r] by simp
  have "setDate_next z (UTC z ?L) = UTC z (MakeDate (Day ?L + 1) (TimeWithinDay ?L))"
    by (simp add: setDate_next_def l)
  also have "MakeDate (Day ?L + 1) (TimeWithinDay ?L) = MakeDate (Day ?L) (TimeWithinDay ?L) + msPerDay"
    by (rule MakeDate_next)
  also have "MakeDate (Day ?L) (TimeWithinDay ?L) = ?L"
    by (simp add: MakeDate_def Day_def TimeWithinDay_def)
  finally show ?thesis using late by (simp add: targetTime_def Let_def setHours_today)
qed

text \<open>Where the target lies when today's and tomorrow's local target times are
  regular.\<close>

lemma target_local:
  assumes r0: "regular z (todayTarget z now c)"
    and r1: "regular z (todayTarget z now c + msPerDay)"
    and hm: "0 \<le> fetchHour c" "fetchHour c < 24" "0 \<le> fetchMinute c" "fetchMinute c < 60"
  shows "LocalTime z now \<le> todayTarget z now c \<Longrightarrow>
           targetTime z now c = UTC z (todayTarget z now c)
           \<and> LocalTime z (targetTime z now c) = todayTarget z now c
           \<and> now \<le> targetTime z now c"
    and "todayTarget z now c < LocalTime z now \<Longrightarrow>
           targetTime z now c = UTC z (todayTarget z now c + msPerDay)
           \<and> LocalTime z (targetTime z now c) = todayTarget z now c + msPerDay
           \<and> now < targetTime z now c"
proof -
  let ?L = "todayTarget z now c"
  {
    assume "LocalTime z now \<le> ?L"
    then have le: "now \<le> UTC z ?L" using regular_le [OF r0] by simp
    then have "targetTime z now c = UTC z ?L" by (rule targetTime_today)
    then show "targetTime z now c = UTC z ?L \<and> LocalTime z (targetTime z now c) = ?L
           \<and> now \<le> targetTime z now c"
      using le regular_eq [OF r0] by simp
  }
  {
    assume "?L < LocalTime z now"
    then have "UTC z ?L < now" using regular_greater [OF r0] by simp
    then have t: "targetTime z now c = UTC z (?L + msPerDay)"
      by (rule targetTime_tomorrow [OF r0 hm])
    have "LocalTime z now < ?L + msPerDay" by (rule today_parts(4) [OF hm])
    then have "now < UTC z (?L + msPerDay)" using regular_less [OF r1] by simp
    then show "targetTime z now c = UTC z (?L + msPerDay)
           \<and> LocalTime z (targetTime z now c) = ?L + msPerDay \<and> now < targetTime z now c"
      using t regular_eq [OF r1] by simp
  }
qed

lemma no_occurrence_before_target:
  assumes ry: "regular z (todayTarget z now c - msPerDay)"
    and r0: "regular z (todayTarget z now c)"
    and r1: "regular z (todayTarget z now c + msPerDay)"
    and hm: "0 \<le> fetchHour c" "fetchHour c < 24" "0 \<le> fetchMinute c" "fetchMinute c < 60"
    and t: "now \<le> t" "t < targetTime z now c"
  shows "\<not> occurrence z (fetchHour c) (fetchMinute c) t"
proof -
  let ?L = "todayTarget z now c"
  let ?tm = "MakeTime (fetchHour c) (fetchMinute c) 0 0"
  have tw: "TimeWithinDay ?L = ?tm" by (rule today_parts(2) [OF hm])
  have twy: "TimeWithinDay (?L - msPerDay) = ?tm"
    using tw by (simp add: TimeWithinDay_def)
  show ?thesis
  proof (cases "LocalTime z now \<le> ?L")
    case True
    then have "targetTime z now c = UTC z ?L" using target_local(1) [OF r0 r1 hm] by blast
    then have up: "LocalTime z t < ?L" using t(2) regular_less [OF r0] by simp
    have "?L - msPerDay < LocalTime z now" by (rule today_parts(3) [OF hm])
    then have "UTC z (?L - msPerDay) < now" using regular_greater [OF ry] by simp
    then have "UTC z (?L - msPerDay) < t" using t(1) by simp
    then have lo: "?L - msPerDay < LocalTime z t" using regular_greater [OF ry] by simp
    have "TimeWithinDay (LocalTime z t) \<noteq> ?tm"
      using between_targets [OF twy lo] up by simp
    then show ?thesis by (simp add: occurrence_def)
  next
    case False
    then have late: "?L < LocalTime z now" by simp
    then have "targetTime z now c = UTC z (?L + msPerDay)"
      using target_local(2) [OF r0 r1 hm] by blast
    then have up: "LocalTime z t < ?L + msPerDay" using t(2) regular_less [OF r1] by simp
    have "UTC z ?L < now" using late regular_greater [OF r0] by simp
    then have "UTC z ?L < t" using t(1) by simp
    then have lo: "?L < LocalTime z t" using regular_greater [OF r0] by simp
    have "TimeWithinDay (LocalTime z t) \<noteq> ?tm"
      using between_targets [OF tw lo up] .
    then show ?thesis by (simp add: occurrence_def)
  qed
qed

lemma occurrence_now:
  assumes hm: "0 \<le> fetchHour c" "fetchHour c < 24" "0 \<le> fetchMinute c" "fetchMinute c < 60"
  shows "occurrence z (fetchHour c) (fetchMinute c) now \<longleftrightarrow> LocalTime z now = todayTarget z now c"
proof
  assume "occurrence z (fetchHour c) (fetchMinute c) now"
  then have "TimeWithinDay (LocalTime z now) = MakeTime (fetchHour c) (fetchMinute c) 0 0"
    by (simp add: occurrence_def)
  then have "MakeTime (fetchHour c) (fetchMinute c) 0 0 = LocalTime z now mod msPerDay"
    by (simp add: TimeWithinDay_def)
  then show "LocalTime z now = todayTarget z now c"
    by (simp add: todayTarget_def MakeDate_def Day_def)
next
  assume "LocalTime z now = todayTarget z now c"
  then show "occurrence z (fetchHour c) (fetchMinute c) now"
    using today_parts(2) [OF hm, of z now] by (simp add: occurrence_def)
qed


text \<open>
  C1, as the code has it.  The claim asks for a strictly positive wait that lands on the
  next occurrence of \<open>fetchHour:fetchMinute\<close> in the configured zone.  The code compares
  with \<open>now > targetTime\<close>, so the wait is zero when \<open>now\<close> is itself the occurrence;
  it computes in the host's local time; and a local time that a change of offset skips
  or repeats is read with the offset before the change.  What holds, in any zone and
  also across a change of offset: when the host's zone is the configured one and
  \<open>fetchHour:fetchMinute\<close> is a regular local time on the local day of \<open>now\<close> and on
  the day after, the wait is at least zero, \<open>now + wait\<close> is an occurrence of
  \<open>fetchHour:fetchMinute\<close> in the configured zone, today's if it has not passed and
  tomorrow's otherwise, and the wait is zero exactly when \<open>now\<close> is an occurrence; when
  the local time is regular on the day before too (it is not when the clock is set back
  across midnight onto it), no instant from \<open>now\<close> up to \<open>now + wait\<close> is an
  occurrence.
\<close>

theorem daily_wait_host_zone:
  assumes zone: "tzdb (timeZone config) = z"
    and hm: "0 \<le> fetchHour config" "fetchHour config < 24"
            "0 \<le> fetchMinute config" "fetchMinute config < 60"
    and r0: "regular z (todayTarget z now config)"
    and r1: "regular z (todayTarget z now config + msPerDay)"
  shows "0 \<le> timeUntilNextFetch z now config
       \<and> occurrence (tzdb (timeZone config)) (fetchHour config) (fetchMinute config)
             (now + timeUntilNextFetch z now config)
       \<and> LocalTime z (now + timeUntilNextFetch z now config)
           = (if LocalTime z now \<le> todayTarget z now config then todayTarget z now config
              else todayTarget z now config + msPerDay)
       \<and> (timeUntilNextFetch z now config = 0 \<longleftrightarrow>
              occurrence (tzdb (timeZone config)) (fetchHour config) (fetchMinute config) now)
       \<and> (regular z (todayTarget z now config - msPerDay) \<longrightarrow>
            (\<forall>t. now \<le> t \<and> t < now + timeUntilNextFetch z now config \<longrightarrow>
               \<not> occurrence (tzdb (timeZone config)) (fetchHour config) (fetchMinute config) t))"
proof -
  let ?L = "todayTarget z now config"
  let ?w = "timeUntilNextFetch z now config"
  have tgt: "now + ?w = targetTime z now config" by (simp add: timeUntilNextFetch_def)
  have tw: "TimeWithinDay ?L = MakeTime (fetchHour config) (fetchMinute config) 0 0"
    by (rule today_parts(2) [OF hm])
  have tw1: "TimeWithinDay (?L + msPerDay) = MakeTime (fetchHour config) (fetchMinute config) 0 0"
    using tw by (simp add: TimeWithinDay_def)
  have loc: "LocalTime z (now + ?w) = (if LocalTime z now \<le> ?L then ?L else ?L + msPerDay)"
    and w0: "0 \<le> ?w"
    and zero: "?w = 0 \<longleftrightarrow> LocalTime z now = ?L"
  proof -
    show "LocalTime z (now + ?w) = (if LocalTime z now \<le> ?L then ?L else ?L + msPerDay)"
    proof (cases "LocalTime z now \<le> ?L")
      case True
      then have "LocalTime z (targetTime z now config) = ?L"
        using target_local(1) [OF r0 r1 hm] by blast
      then show ?thesis using True by (simp add: tgt)
    next
      case False
      then have "LocalTime z (targetTime z now config) = ?L + msPerDay"
        using target_local(2) [OF r0 r1 hm] by linarith
      then show ?thesis using False by (simp add: tgt)
    qed
    show "0 \<le> ?w"
    proof (cases "LocalTime z now \<le> ?L")
      case True
      then have "now \<le> targetTime z now config"
        using target_local(1) [OF r0 r1 hm] by blast
      then show ?thesis by (simp add: timeUntilNextFetch_def)
    next
      case False
      then have "now < targetTime z now config"
        using target_local(2) [OF r0 r1 hm] by linarith
      then show ?thesis by (simp add: timeUntilNextFetch_def)
    qed
    show "?w = 0 \<longleftrightarrow> LocalTime z now = ?L"
    proof (cases "LocalTime z now \<le> ?L")
      case True
      then have "targetTime z now config = UTC z ?L" using target_local(1) [OF r0 r1 hm] by blast
      then show ?thesis using regular_eq [OF r0, of now] by (auto simp: timeUntilNextFetch_def)
    next
      case False
      then have "now < targetTime z now config" using target_local(2) [OF r0 r1 hm] by linarith
      then show ?thesis using False by (simp add: timeUntilNextFetch_def)
    qed
  qed
  have occ: "occurrence z (fetchHour config) (fetchMinute config) (now + ?w)"
    unfolding occurrence_def loc using tw tw1 by simp
  have first: "\<not> occurrence z (fetchHour config) (fetchMinute config) t"
    if "regular z (?L - msPerDay)" "now \<le> t" "t < now + ?w" for t
    using no_occurrence_before_target [OF that(1) r0 r1 hm that(2)] that(3) unfolding tgt by simp
  show ?thesis
    using w0 occ loc first zero occurrence_now [OF hm, of z now] unfolding zone by blast
qed

text \<open>
  The theorem across the change to summer time: on a host in Madrid at
  2024-03-30T12:00Z (13:00 local time) the EPL fetch of 10:00 is 20 hours away, not 21,
  and lands on 10:00 local time of 31 March.
\<close>

theorem daily_wait_host_zone_witness:
  "tzdb_2024 ''Europe/Madrid'' = madrid_2024
   \<and> todayTarget madrid_2024 1711800000000
        \<lparr>fetchHour = 10, fetchMinute = 0, timeZone = ''Europe/Madrid''\<rparr> = 1711792800000
   \<and> timeUntilNextFetch madrid_2024 1711800000000
        \<lparr>fetchHour = 10, fetchMinute = 0, timeZone = ''Europe/Madrid''\<rparr> = 72000000
   \<and> occurrence (tzdb_2024 ''Europe/Madrid'') 10 0 (1711800000000 + 72000000)
   \<and> LocalTime madrid_2024 (1711800000000 + 72000000) = 1711792800000 + msPerDay
   \<and> regular madrid_2024 (1711792800000 - msPerDay)
   \<and> \<not> occurrence (tzdb_2024 ''Europe/Madrid'') 10 0 (1711800000000 + 71999999)"
proof -
  let ?c = "\<lparr>fetchHour = 10, fetchMinute = 0, timeZone = ''Europe/Madrid''\<rparr>"
  have z: "tzdb_2024 (timeZone ?c) = madrid_2024" by (simp add: tzdb_2024_def)
  have L: "todayTarget madrid_2024 1711800000000 ?c = 1711792800000"
    by (simp add: todayTarget_def LocalTime_def MakeDate_def MakeTime_def Day_def msPerDay_def
        madrid_2024_def)
  have w: "timeUntilNextFetch madrid_2024 1711800000000 ?c = 72000000"
    by (simp add: timeUntilNextFetch_def targetTime_def setHours_def setDate_next_def UTC_def
        LocalTime_def MakeDate_def MakeTime_def Day_def TimeWithinDay_def msPerDay_def
        madrid_2024_def)
  have r: "regular madrid_2024 (todayTarget madrid_2024 1711800000000 ?c)"
    "regular madrid_2024 (todayTarget madrid_2024 1711800000000 ?c + msPerDay)"
    unfolding L by (rule regular_madrid_2024, simp add: msPerDay_def)+
  have ry: "regular madrid_2024 (1711792800000 - msPerDay)"
    by (rule regular_madrid_2024, simp add: msPerDay_def)
  have l: "LocalTime madrid_2024 1711800000000 = 1711803600000"
    by (simp add: LocalTime_def madrid_2024_def)
  show ?thesis
    using daily_wait_host_zone [where tzdb = tzdb_2024 and config = ?c, OF z _ _ _ _ r]
      z L w l ry
    by simp
qed


text \<open>
  C1 fails as stated, in four ways.  On a host in UTC, at 1970-01-01T10:00:00.000Z the
  wait for the 10:00 fetch is zero, not strictly positive.  On the same host at
  1970-01-01T00:00Z the wait lands on 10:00 UTC, which is 11:00 in the configured zone
  Europe/Madrid.  On a host in Madrid at 2024-03-31T00:00Z a fetch configured for 02:30,
  which that day skips, lands on 03:30 local time.  On a host in Madrid at
  2024-10-27T00:45Z, between the two 02:30 of that day, the wait for the 02:30 fetch
  passes over the second one, at 01:30Z.
\<close>

theorem daily_wait_counterexample:
  "timeUntilNextFetch (fixedZone 0) 36000000
      \<lparr>fetchHour = 10, fetchMinute = 0, timeZone = ''Europe/Madrid''\<rparr> = 0
   \<and> \<not> occurrence (tzdb_winter ''Europe/Madrid'') 10 0
        (0 + timeUntilNextFetch (fixedZone 0) 0
               \<lparr>fetchHour = 10, fetchMinute = 0, timeZone = ''Europe/Madrid''\<rparr>)
   \<and> \<not> occurrence (tzdb_2024 ''Europe/Madrid'') 2 30
        (1711843200000 + timeUntilNextFetch madrid_2024 1711843200000
               \<lparr>fetchHour = 2, fetchMinute = 30, timeZone = ''Europe/Madrid''\<rparr>)
   \<and> occurrence (tzdb_2024 ''Europe/Madrid'') 2 30 1729992600000
   \<and> 1729992600000 < 1729989900000 + timeUntilNextFetch madrid_2024 1729989900000
               \<lparr>fetchHour = 2, fetchMinute = 30, timeZone = ''Europe/Madrid''\<rparr>"
  by (simp add: timeUntilNextFetch_def targetTime_def setHours_def setDate_next_def UTC_def
      LocalTime_def MakeDate_def MakeTime_def Day_def TimeWithinDay_def msPerDay_def fixedZone_def
      occurrence_def tzdb_winter_def tzdb_2024_def madrid_2024_def)

text \<open>
  C5, as the code has it.  The claim says that \<open>now\<close> equal to today's target rolls over
  to tomorrow and gives a strictly positive wait.  The guard is \<open>now > targetTime\<close>:
  at equality there is no roll-over, the target is \<open>now\<close> itself and the wait is exactly
  zero.  Strictly before today's target, the target is today's and the wait is
  positive.  When \<open>fetchHour:fetchMinute\<close> is a regular local time today and tomorrow,
  today's target is today's occurrence, the wait is zero only at equality, and strictly
  after today's target the target is tomorrow's occurrence, with a positive wait.
\<close>

theorem wait_at_target_is_zero:
  "(setHours z now (fetchHour config) (fetchMinute config) 0 0 = now \<longrightarrow>
      targetTime z now config = now \<and> timeUntilNextFetch z now config = 0)
   \<and> (now < setHours z now (fetchHour config) (fetchMinute config) 0 0 \<longrightarrow>
      targetTime z now config = setHours z now (fetchHour config) (fetchMinute config) 0 0
      \<and> 0 < timeUntilNextFetch z now config)
   \<and> (0 \<le> fetchHour config \<and> fetchHour config < 24
        \<and> 0 \<le> fetchMinute config \<and> fetchMinute config < 60
        \<and> regular z (todayTarget z now config)
        \<and> regular z (todayTarget z now config + msPerDay) \<longrightarrow>
      LocalTime z (setHours z now (fetchHour config) (fetchMinute config) 0 0)
        = todayTarget z now config
      \<and> (timeUntilNextFetch z now config = 0 \<longleftrightarrow>
           now = setHours z now (fetchHour config) (fetchMinute config) 0 0)
      \<and> (setHours z now (fetchHour config) (fetchMinute config) 0 0 < now \<longrightarrow>
           targetTime z now config = UTC z (todayTarget z now config + msPerDay)
           \<and> LocalTime z (targetTime z now config) = todayTarget z now config + msPerDay
           \<and> 0 < timeUntilNextFetch z now config))"
proof -
  let ?t0 = "setHours z now (fetchHour config) (fetchMinute config) 0 0"
  let ?L = "todayTarget z now config"
  have a: "?t0 = now \<longrightarrow> targetTime z now config = now \<and> timeUntilNextFetch z now config = 0"
    by (simp add: timeUntilNextFetch_def targetTime_def Let_def)
  have b: "now < ?t0 \<longrightarrow> targetTime z now config = ?t0 \<and> 0 < timeUntilNextFetch z now config"
    by (simp add: timeUntilNextFetch_def targetTime_def Let_def)
  have c: "LocalTime z ?t0 = ?L
      \<and> (timeUntilNextFetch z now config = 0 \<longleftrightarrow> now = ?t0)
      \<and> (?t0 < now \<longrightarrow>
           targetTime z now config = UTC z (?L + msPerDay)
           \<and> LocalTime z (targetTime z now config) = ?L + msPerDay
           \<and> 0 < timeUntilNextFetch z now config)"
    if hm: "0 \<le> fetchHour config" "fetchHour config < 24"
           "0 \<le> fetchMinute config" "fetchMinute config < 60"
      and r0: "regular z ?L" and r1: "regular z (?L + msPerDay)"
  proof -
    have t0: "?t0 = UTC z ?L" by (rule setHours_today)
    have l0: "LocalTime z ?t0 = ?L" using regular_eq [OF r0] t0 by simp
    have late: "targetTime z now config = UTC z (?L + msPerDay)
           \<and> LocalTime z (targetTime z now config) = ?L + msPerDay
           \<and> 0 < timeUntilNextFetch z now config" if "?t0 < now"
    proof -
      have "?L < LocalTime z now" using that regular_greater [OF r0] t0 by simp
      then have t: "targetTime z now config = UTC z (?L + msPerDay)"
        "LocalTime z (targetTime z now config) = ?L + msPerDay" "now < targetTime z now config"
        using target_local(2) [OF r0 r1 hm] by blast+
      have "0 < timeUntilNextFetch z now config" using t(3) by (simp add: timeUntilNextFetch_def)
      with t(1) t(2) show ?thesis by blast
    qed
    have "timeUntilNextFetch z now config = 0 \<longleftrightarrow> now = ?t0"
      using a b late by (cases "?t0 < now"; cases "now < ?t0") auto
    then show ?thesis using l0 late by blast
  qed
  show ?thesis using a b c by blast
qed

text \<open>
  On a host in Madrid on 2023-11-14: at 10:00:00.000 local time the wait is 0; one
  millisecond earlier it is 1 ms; one millisecond later the target is 10:00 of the next
  day, 1700038800000, and the wait is 86,399,999 ms.
\<close>

theorem wait_at_target_is_zero_witness:
  "setHours madrid_2024 1699952400000 10 0 0 0 = 1699952400000
   \<and> targetTime madrid_2024 1699952400000
        \<lparr>fetchHour = 10, fetchMinute = 0, timeZone = ''Europe/Madrid''\<rparr> = 1699952400000
   \<and> timeUntilNextFetch madrid_2024 1699952400000
        \<lparr>fetchHour = 10, fetchMinute = 0, timeZone = ''Europe/Madrid''\<rparr> = 0
   \<and> 1699952399999 < setHours madrid_2024 1699952399999 10 0 0 0
   \<and> timeUntilNextFetch madrid_2024 1699952399999
        \<lparr>fetchHour = 10, fetchMinute = 0, timeZone = ''Europe/Madrid''\<rparr> = 1
   \<and> setHours madrid_2024 1699952400001 10 0 0 0 < 1699952400001
   \<and> targetTime madrid_2024 1699952400001
        \<lparr>fetchHour = 10, fetchMinute = 0, timeZone = ''Europe/Madrid''\<rparr> = 1700038800000
   \<and> LocalTime madrid_2024 1700038800000
       = todayTarget madrid_2024 1699952400001
           \<lparr>fetchHour = 10, fetchMinute = 0, timeZone = ''Europe/Madrid''\<rparr> + msPerDay
   \<and> timeUntilNextFetch madrid_2024 1699952400001
        \<lparr>fetchHour = 10, fetchMinute = 0, timeZone = ''Europe/Madrid''\<rparr> = 86399999"
proof -
  let ?c = "\<lparr>fetchHour = 10, fetchMinute = 0, timeZone = ''Europe/Madrid''\<rparr>"
  have e: "setHours madrid_2024 1699952400000 10 0 0 0 = 1699952400000"
    "setHours madrid_2024 1699952399999 10 0 0 0 = 1699952400000"
    "setHours madrid_2024 1699952400001 10 0 0 0 = 1699952400000"
    by (simp_all add: setHours_def UTC_def LocalTime_def MakeDate_def MakeTime_def Day_def
        msPerDay_def madrid_2024_def)
  have L: "todayTarget madrid_2024 1699952400001 ?c = 1699956000000"
    by (simp add: todayTarget_def LocalTime_def MakeDate_def MakeTime_def Day_def msPerDay_def
        madrid_2024_def)
  have r: "regular madrid_2024 (todayTarget madrid_2024 1699952400001 ?c)"
    "regular madrid_2024 (todayTarget madrid_2024 1699952400001 ?c + msPerDay)"
    unfolding L by (rule regular_madrid_2024, simp add: msPerDay_def)+
  have u: "UTC madrid_2024 (1699956000000 + msPerDay) = 1700038800000"
    by (simp add: UTC_def msPerDay_def madrid_2024_def)
  have w: "timeUntilNextFetch madrid_2024 1699952399999 ?c = 1"
    "timeUntilNextFetch madrid_2024 1699952400001 ?c = 86399999"
    by (simp_all add: timeUntilNextFetch_def targetTime_def setHours_def setDate_next_def UTC_def
        LocalTime_def MakeDate_def MakeTime_def Day_def TimeWithinDay_def msPerDay_def
        madrid_2024_def)
  have l: "LocalTime madrid_2024 1700038800000 = 1699956000000 + msPerDay"
    by (simp add: LocalTime_def msPerDay_def madrid_2024_def)
  show ?thesis
    using wait_at_target_is_zero [of madrid_2024 1699952400000 ?c]
      wait_at_target_is_zero [of madrid_2024 1699952399999 ?c]
      wait_at_target_is_zero [of madrid_2024 1699952400001 ?c] e r w l
    by (simp add: L u)
qed

text \<open>C5 fails as stated: on a host in Madrid at 2023-11-14T10:00:00.000 local time,
  the 10:00 fetch is due in 0 ms; the wait is not strictly positive and the target is
  not tomorrow's.\<close>

theorem wait_at_target_counterexample:
  "\<not> (0 < timeUntilNextFetch (fixedZone 3600000) 1699952400000
              \<lparr>fetchHour = 10, fetchMinute = 0, timeZone = ''Europe/Madrid''\<rparr>)
   \<and> targetTime (fixedZone 3600000) 1699952400000
        \<lparr>fetchHour = 10, fetchMinute = 0, timeZone = ''Europe/Madrid''\<rparr>
      \<noteq> 1699952400000 + msPerDay"
  by (simp add: timeUntilNextFetch_def targetTime_def setHours_def setDate_next_def UTC_def
      LocalTime_def MakeDate_def MakeTime_def Day_def TimeWithinDay_def msPerDay_def fixedZone_def)

subsection \<open>The event source\<close>

lemma formatLeague_games:
  assumes "formatLeague io (league, ev) = (l, Inr (Some td))"
  shows "games td = sort_key startsAt ev \<and> ev \<noteq> []"
proof -
  from assms obtain info body firstGame rest where
    "sort_key startsAt ev = firstGame # rest" "games td = sort_key startsAt ev"
    by (auto simp: formatLeague_def Let_def split: option.splits sum.splits list.splits if_splits)
  then show ?thesis by auto
qed

lemma map_sync_Inr:
  "map_sync f xs = (l, Inr ys) \<Longrightarrow> y \<in> set ys \<Longrightarrow> \<exists>x l'. f x = (l', Inr y)"
proof (induction xs arbitrary: l ys)
  case Nil
  then show ?case by simp
next
  case (Cons a xs)
  obtain la ra where a: "f a = (la, ra)" by (cases "f a")
  obtain ls rs where r: "map_sync f xs = (ls, rs)" by (cases "map_sync f xs")
  from Cons.prems(1) a r obtain x zs where
    ra: "ra = Inr x" and rs: "rs = Inr zs" and ys: "ys = x # zs"
    by (auto split: sum.splits)
  show ?case
  proof (cases "y = x")
    case True
    then show ?thesis using a ra by auto
  next
    case False
    then have "y \<in> set zs" using Cons.prems(2) ys by simp
    then show ?thesis using Cons.IH r rs by blast
  qed
qed

lemma getGames_try_games:
  assumes "getGames_try io i = (l, Inr r)" "td \<in> set (tweets r)"
  shows "\<exists>ev. ev \<noteq> [] \<and> games td = sort_key startsAt ev"
proof -
  from assms obtain l1 results l2 formatted where
    f: "map_sync (formatLeague io) (filter (\<lambda>(league, events). length events > 0) results)
          = (l2, Inr formatted)"
    and t: "tweets r = List.map_filter id formatted"
    by (auto simp: getGames_try_def Let_def split: prod.splits sum.splits if_splits)
  from assms(2) t have "Some td \<in> set formatted"
    by (auto simp: List.map_filter_def)
  from map_sync_Inr [OF f this] obtain l' le where
    "formatLeague io le = (l', Inr (Some td))" by auto
  then have "formatLeague io (fst le, snd le) = (l', Inr (Some td))" by simp
  then show ?thesis using formatLeague_games by blast
qed

lemma getGames_eq_try:
  "getGames io i = (l, Inr r) \<Longrightarrow> tweets r \<noteq> [] \<Longrightarrow> getGames_try io i = (l, Inr r)"
  by (auto simp: getGames_def split: prod.splits sum.splits)

lemma sorted_hd_least:
  assumes "sorted (map f xs)" "x \<in> set xs"
  shows "f (hd xs) \<le> f x"
  using assms by (cases xs) auto

lemma getGames_games:
  assumes "getGames io i = (l, Inr r)" "td \<in> set (tweets r)"
  shows "\<exists>ev. ev \<noteq> [] \<and> games td = sort_key startsAt ev"
proof -
  have "tweets r \<noteq> []" using assms(2) by auto
  then have "getGames_try io i = (l, Inr r)" using assms(1) by (rule getGames_eq_try [rotated])
  then show ?thesis using getGames_try_games assms(2) by blast
qed

lemma getGames_total: "\<exists>l r. getGames io i = (l, Inr r)"
  by (auto simp: getGames_def split: prod.splits sum.splits)

lemma safeAPICall_from_exhausted:
  assumes "\<forall>k\<le>maxRetries. \<exists>e. net k = Failed e" "retries \<le> maxRetries"
  shows "snd (safeAPICall_from net name maxRetries d False retries) = Inr d
       \<and> LogError (''Max retries reached for '' @ name @ '', returning default value'')
           \<in> set (fst (safeAPICall_from net name maxRetries d False retries))"
  using assms
proof (induction "maxRetries - retries" arbitrary: retries)
  case 0
  then obtain e where e: "net retries = Failed e" by blast
  have "retries + 1 > maxRetries" using 0 by simp
  then show ?case using e "0.prems"
    by (subst (1 2) safeAPICall_from.simps) (simp add: Let_def)
next
  case (Suc n)
  then obtain e where e: "net retries = Failed e" by blast
  have lt: "\<not> retries + 1 > maxRetries" using Suc.hyps(2) by simp
  have "n = maxRetries - (retries + 1)" using Suc.hyps(2) by simp
  then have ih: "snd (safeAPICall_from net name maxRetries d False (retries + 1)) = Inr d
       \<and> LogError (''Max retries reached for '' @ name @ '', returning default value'')
           \<in> set (fst (safeAPICall_from net name maxRetries d False (retries + 1)))"
    using Suc.hyps(1) [of "retries + 1"] Suc.prems(1) lt by simp
  obtain ls r where rec: "safeAPICall_from net name maxRetries d False (retries + 1) = (ls, r)"
    by (cases "safeAPICall_from net name maxRetries d False (retries + 1)")
  have "\<exists>l. safeAPICall_from net name maxRetries d False retries = (l # ls, r)"
    using e Suc.prems(2) lt rec
    by (subst safeAPICall_from.simps) (simp add: Let_def)
  then show ?case using ih rec by auto
qed

lemma getLeagueEvents_exhausted:
  assumes "\<forall>k\<le>3. \<exists>e. api io lid k = Failed e"
  shows "snd (getLeagueEvents io lid) = Inr (Some [])
       \<and> LogError ''Max retries reached for get league games, returning default value''
           \<in> set (fst (getLeagueEvents io lid))"
  using safeAPICall_from_exhausted [of 3 "api io lid" 0 "''get league games''" "Data (Some [])"] assms
  by (auto simp: getLeagueEvents_def safeAPICall_def split: prod.splits sum.splits api_json.splits)

lemma fetchLeague_exhausted:
  assumes "\<forall>k\<le>3. \<exists>e. api io (league_id info) k = Failed e" "map_of leagues league = Some info"
  shows "snd (fetchLeague io league) = Inr (league, [])
       \<and> LogError ''Max retries reached for get league games, returning default value''
           \<in> set (fst (fetchLeague io league))"
  using getLeagueEvents_exhausted [OF assms(1)] assms(2)
  by (auto simp: fetchLeague_def split: prod.splits sum.splits option.splits)

lemma leaguesToFetch_Some:
  "lid \<noteq> [] \<Longrightarrow> leaguesToFetch (Some lid) = [] \<or>
     (\<exists>league info. leaguesToFetch (Some lid) = [league] \<and> map_of leagues league = Some info
        \<and> league_id info = lid)"
  by (simp add: leaguesToFetch_def leagues_def)

lemma getGames_try_no_events:
  assumes "leaguesToFetch i = [league]" "fetchLeague io league = (l, Inr (league, []))"
  shows "getGames_try io i
           = (LogInfo ''AZURO: Fetching games'' # l @ [LogInfo ''AZURO: No games found''],
              Inr \<lparr>tweets = []\<rparr>)"
  using assms by (simp add: getGames_try_def)

lemma getGames_exhausted:
  assumes "\<forall>k\<le>3. \<exists>e. api io lid k = Failed e" "lid \<noteq> []"
  shows "snd (getGames io (Some lid)) = Inr \<lparr>tweets = []\<rparr>"
    and "lid \<in> set (map (league_id \<circ> snd) leagues) \<Longrightarrow>
         LogError ''Max retries reached for get league games, returning default value''
           \<in> set (fst (getGames io (Some lid)))"
proof -
  have known: "snd (getGames io (Some lid)) = Inr \<lparr>tweets = []\<rparr>
       \<and> LogError ''Max retries reached for get league games, returning default value''
           \<in> set (fst (getGames io (Some lid)))"
    if l: "leaguesToFetch (Some lid) = [league]" "map_of leagues league = Some info"
        "league_id info = lid" for league info
  proof -
    obtain lg where f: "fetchLeague io league = (lg, Inr (league, []))"
      and m: "LogError ''Max retries reached for get league games, returning default value''
                \<in> set lg"
      using fetchLeague_exhausted [of io info league] assms(1) l
      by (cases "fetchLeague io league") auto
    show ?thesis
      using m by (simp add: getGames_def getGames_try_no_events [OF l(1) f])
  qed
  from leaguesToFetch_Some [OF assms(2)]
  consider "leaguesToFetch (Some lid) = []"
    | league info where "leaguesToFetch (Some lid) = [league]" "map_of leagues league = Some info"
        "league_id info = lid" by blast
  then show "snd (getGames io (Some lid)) = Inr \<lparr>tweets = []\<rparr>"
  proof cases
    case 1
    then show ?thesis by (simp add: getGames_def getGames_try_def)
  next
    case 2
    then show ?thesis using known by blast
  qed
  assume "lid \<in> set (map (league_id \<circ> snd) leagues)"
  then obtain league info where "leaguesToFetch (Some lid) = [league]"
      "map_of leagues league = Some info" "league_id info = lid"
    using assms(2) by (auto simp: leaguesToFetch_def leagues_def)
  then show "LogError ''Max retries reached for get league games, returning default value''
           \<in> set (fst (getGames io (Some lid)))"
    using known by blast
qed

lemma getGames_caught:
  assumes "getGames_try io i = (l, Inl e)"
  shows "getGames io i = (l @ [LogError ''AZURO: Error fetching games''], Inr \<lparr>tweets = []\<rparr>)"
  using assms by (simp add: getGames_def)

text \<open>
  C8.  \<open>getGames\<close> never throws: it always returns a result.  When the body of its
  \<open>try\<close> throws, whatever the error, the result is \<open>{ tweets: [] }\<close> and the last
  thing logged is the error.  When every one of the four attempts of \<open>safeAPICall\<close>
  fails for a supported league identifier, the result is \<open>{ tweets: [] }\<close> too, the
  same value as for a day without games, and the exhaustion is in the log.
\<close>

theorem getGames_contains_failures:
  "(\<exists>l r. getGames io i = (l, Inr r))
   \<and> (\<forall>l e. getGames_try io i = (l, Inl e) \<longrightarrow>
         getGames io i = (l @ [LogError ''AZURO: Error fetching games''], Inr \<lparr>tweets = []\<rparr>))
   \<and> ((\<forall>k\<le>3. \<exists>e. api io lid k = Failed e) \<and> lid \<in> set (map (league_id \<circ> snd) leagues) \<longrightarrow>
         snd (getGames io (Some lid)) = Inr \<lparr>tweets = []\<rparr>
         \<and> LogError ''Max retries reached for get league games, returning default value''
               \<in> set (fst (getGames io (Some lid))))"
proof -
  have "lid \<noteq> []" if "lid \<in> set (map (league_id \<circ> snd) leagues)"
    using that by (auto simp: leagues_def)
  then show ?thesis
    using getGames_total [of io i] getGames_caught [of io i] getGames_exhausted [of io lid]
    by blast
qed

text \<open>With the subgraph down, and with a reply that has no \<open>data\<close>, the NBA fetch
  returns no tweets.\<close>

theorem getGames_contains_failures_witness:
  "api io_down ''31_United States_NBA'' 0 = Failed (Error ''fetch failed'')
   \<and> api io_down ''31_United States_NBA'' 3 = Failed (Error ''fetch failed'')
   \<and> ''31_United States_NBA'' \<in> set (map (league_id \<circ> snd) leagues)
   \<and> snd (getGames io_down (Some ''31_United States_NBA'')) = Inr \<lparr>tweets = []\<rparr>
   \<and> snd (getGames_try io_broken (Some ''31_United States_NBA'')) = Inl TypeError
   \<and> snd (getGames io_broken (Some ''31_United States_NBA'')) = Inr \<lparr>tweets = []\<rparr>"
proof -
  have a: "\<forall>k\<le>3. \<exists>e. api io_down ''31_United States_NBA'' k = Failed e"
    by (simp add: io_down_def)
  have a': "api io_down ''31_United States_NBA'' k = Failed (Error ''fetch failed'')" for k
    by (simp add: io_down_def)
  have b: "''31_United States_NBA'' \<in> set (map (league_id \<circ> snd) leagues)"
    by (simp add: leagues_def)
  have c: "snd (getGames_try io_broken (Some ''31_United States_NBA'')) = Inl TypeError"
    by code_simp
  then have d: "getGames_try io_broken (Some ''31_United States_NBA'')
                  = (fst (getGames_try io_broken (Some ''31_United States_NBA'')), Inl TypeError)"
    by (metis prod.collapse)
  show ?thesis
    using getGames_contains_failures [of io_down "Some ''31_United States_NBA''"
        "''31_United States_NBA''"]
      getGames_contains_failures [of io_broken "Some ''31_United States_NBA''"
        "''31_United States_NBA''"] a a' b c d
    by auto
qed

text \<open>
  C10.  Every \<open>TweetData\<close> in a result of \<open>getGames\<close> has games, sorted by
  \<open>startsAt\<close> in ascending order, so the first game starts no later than any other.
\<close>

theorem getGames_games_sorted:
  assumes "getGames io i = (l, Inr r)" "td \<in> set (tweets r)"
  shows "games td \<noteq> [] \<and> sorted (map startsAt (games td))
         \<and> (\<forall>g \<in> set (games td). startsAt (hd (games td)) \<le> startsAt g)"
proof -
  obtain ev where ev: "ev \<noteq> []" "games td = sort_key startsAt ev"
    using getGames_games [OF assms] by blast
  have s: "sorted (map startsAt (games td))" by (simp add: ev(2))
  have n: "games td \<noteq> []" using ev by (metis length_sort length_0_conv)
  show ?thesis using s n sorted_hd_least [OF s] by blast
qed

text \<open>The subgraph lists the later game first; the tweet has the earlier one first.\<close>

theorem getGames_games_sorted_witness:
  "map games (tweets (projr (snd (getGames io_nba (Some ''31_United States_NBA'')))))
     = [[game_early, game_late]]
   \<and> sorted (map startsAt [game_early, game_late])
   \<and> startsAt game_early \<le> startsAt game_late"
proof -
  let ?g = "getGames io_nba (Some ''31_United States_NBA'')"
  have a: "?g = (fst ?g, Inr (projr (snd ?g)))"
    using getGames_total [of io_nba "Some ''31_United States_NBA''"] by auto
  have b: "map games (tweets (projr (snd ?g))) = [[game_early, game_late]]"
    by code_simp
  then obtain td where t: "tweets (projr (snd ?g)) = [td]" "games td = [game_early, game_late]"
    by auto
  then have m: "td \<in> set (tweets (projr (snd ?g)))" by simp
  show ?thesis using getGames_games_sorted [OF a m] b t by simp
qed

subsection \<open>Publishing\<close>

lemma postLeagueTweet_ending: "\<exists>out. ending (postLeagueTweet env client pio td) = Inr out"
  by (cases "ending (postLeagueTweet_try env client pio td)") (simp_all add: postLeagueTweet_def)

lemma postLeagueTweet_calls:
  "calls (postLeagueTweet env client pio td) = calls (postLeagueTweet_try env client pio td)"
  by (cases "ending (postLeagueTweet_try env client pio td)") (simp_all add: postLeagueTweet_def)

lemma postLeagueTweet_sent:
  "sent (postLeagueTweet env client pio td) = sent (postLeagueTweet_try env client pio td)"
  by (cases "ending (postLeagueTweet_try env client pio td)") (simp_all add: postLeagueTweet_def)

lemma postLeagueTweet_caught:
  "ending (postLeagueTweet_try env client pio td) = Inl e \<Longrightarrow>
   ending (postLeagueTweet env client pio td) = Inr (Caught e)"
  by (simp add: postLeagueTweet_def)

lemma try_media_fails:
  "mediaFor pio td = Inl e \<Longrightarrow>
   postLeagueTweet_try env client pio td = \<lparr>calls = [], sent = [], ending = Inl e\<rparr>"
  by (simp add: postLeagueTweet_try_def)

lemma try_main_fails:
  assumes "mediaFor pio td = Inr media"
    "snd (mainPost env client pio (formatTweetText env td) media) = Inl e"
  shows "calls (postLeagueTweet_try env client pio td) = [mainCall env (formatTweetText env td) media]"
    and "ending (postLeagueTweet_try env client pio td) = Inl e"
  using assms
  by (cases "mainPost env client pio (formatTweetText env td) media";
      simp add: postLeagueTweet_try_def Let_def)+

lemma try_reply:
  assumes "mediaFor pio td = Inr media"
    "snd (mainPost env client pio (formatTweetText env td) media) = Inr firstTweetId"
  shows "calls (postLeagueTweet_try env client pio td)
           = [mainCall env (formatTweetText env td) media,
              SendTweet (generateLinkTweet td) firstTweetId None]"
    and "snd (sendTweet client (twitter pio 1) (generateLinkTweet td) firstTweetId None) = Inl e
         \<Longrightarrow> ending (postLeagueTweet_try env client pio td) = Inl e"
  using assms
  by (cases "mainPost env client pio (formatTweetText env td) media";
      cases "sendTweet client (twitter pio 1) (generateLinkTweet td) firstTweetId None";
      simp add: postLeagueTweet_try_def Let_def)+

text \<open>
  C7.  No exception escapes \<open>postLeagueTweet\<close>: every run ends in an outcome.  When
  the attachments cannot be read, no call of the client is made.  When the main post
  fails (the call throws, or what it returns has no result to read the identifier
  from), the only call made is the main one: the reply is not attempted, and the error
  ends in the \<open>catch\<close>.  When the main post succeeds, the calls are the main post and
  the reply, once each and nothing else (the main post is neither sent again nor taken
  back), and an error of the reply ends in the \<open>catch\<close>.
\<close>

theorem publish_failures_contained:
  "(\<exists>out. ending (postLeagueTweet env client pio td) = Inr out)
   \<and> (\<forall>e. mediaFor pio td = Inl e \<longrightarrow> calls (postLeagueTweet env client pio td) = [])
   \<and> (\<forall>media e. mediaFor pio td = Inr media
          \<and> snd (mainPost env client pio (formatTweetText env td) media) = Inl e \<longrightarrow>
        calls (postLeagueTweet env client pio td) = [mainCall env (formatTweetText env td) media]
        \<and> ending (postLeagueTweet env client pio td) = Inr (Caught e))
   \<and> (\<forall>media firstTweetId. mediaFor pio td = Inr media
          \<and> snd (mainPost env client pio (formatTweetText env td) media) = Inr firstTweetId \<longrightarrow>
        calls (postLeagueTweet env client pio td)
          = [mainCall env (formatTweetText env td) media,
             SendTweet (generateLinkTweet td) firstTweetId None]
        \<and> (\<forall>e. snd (sendTweet client (twitter pio 1) (generateLinkTweet td) firstTweetId None)
                  = Inl e \<longrightarrow>
              ending (postLeagueTweet env client pio td) = Inr (Caught e)))"
  using postLeagueTweet_ending [of env client pio td]
    try_media_fails [of pio td _ env client]
    try_main_fails [of pio td _ env client]
    try_reply [of pio td _ env client]
  by (simp add: postLeagueTweet_calls postLeagueTweet_caught)

text \<open>On a platform where no login works the run stops after the main call; on one
  that fails on the reply the error is caught; without the image file no call is
  made.\<close>

theorem publish_failures_contained_witness:
  "mediaFor pio_login_fails tweet_nba = Inr None
   \<and> snd (mainPost env_off client_live pio_login_fails (formatTweetText env_off tweet_nba) None)
       = Inl (Error ''Unable to log in to Twitter: cookies and credentials both failed.'')
   \<and> calls (postLeagueTweet env_off client_live pio_login_fails tweet_nba)
       = [SendTweet ''NBA TONIGHT!'' None None]
   \<and> mediaFor pio_reply_fails tweet_nba = Inr None
   \<and> snd (mainPost env_off client_live pio_reply_fails (formatTweetText env_off tweet_nba) None)
       = Inr (Some ''1850'')
   \<and> snd (sendTweet client_live (twitter pio_reply_fails 1) (generateLinkTweet tweet_nba)
            (Some ''1850'') None) = Inl (Error ''rate limit'')
   \<and> ending (postLeagueTweet env_off client_live pio_reply_fails tweet_nba)
       = Inr (Caught (Error ''rate limit''))
   \<and> mediaFor pio_no_file tweet_nba_image = Inl (Error ''ENOENT'')
   \<and> calls (postLeagueTweet env_off client_live pio_no_file tweet_nba_image) = []"
proof -
  have g: "mediaFor pio_no_file tweet_nba_image = Inl (Error ''ENOENT'')" by code_simp
  have a: "mediaFor pio_login_fails tweet_nba = Inr None" by code_simp
  have b: "snd (mainPost env_off client_live pio_login_fails (formatTweetText env_off tweet_nba) None)
       = Inl (Error ''Unable to log in to Twitter: cookies and credentials both failed.'')"
    by code_simp
  have c: "mainCall env_off (formatTweetText env_off tweet_nba) None
             = SendTweet ''NBA TONIGHT!'' None None" by code_simp
  have d: "mediaFor pio_reply_fails tweet_nba = Inr None" by code_simp
  have e: "snd (mainPost env_off client_live pio_reply_fails (formatTweetText env_off tweet_nba) None)
       = Inr (Some ''1850'')" by code_simp
  have f: "snd (sendTweet client_live (twitter pio_reply_fails 1) (generateLinkTweet tweet_nba)
            (Some ''1850'') None) = Inl (Error ''rate limit'')"
    by (simp add: sendTweet_def client_live_def pio_reply_fails_def getLoggedInScraper_def)
  show ?thesis
    using publish_failures_contained [of env_off client_live pio_login_fails tweet_nba]
      publish_failures_contained [of env_off client_live pio_reply_fails tweet_nba]
      publish_failures_contained [of env_off client_live pio_no_file tweet_nba_image]
      a b c d e f g
    by simp
qed

subsection \<open>Dry run\<close>

lemma sendTweet_dry:
  "isDryRun client \<Longrightarrow>
   sendTweet client tio content replyTo media
     = ([], Inr (Response True (dryRunTweet content replyTo)))"
  by (simp add: sendTweet_def)

lemma sendNoteTweet_dry:
  "isDryRun client \<Longrightarrow>
   sendNoteTweet client tio content replyTo media
     = ([], Inr (Response True (dryRunNoteTweet content replyTo)))"
  by (simp add: sendNoteTweet_def)

lemma tweetId_dry:
  "tweetId (Response True (dryRunTweet content replyTo)) now
     = Inr (Some (''dry-run-'' @ show_int now))"
  by (simp add: tweetId_def json_def dryRunTweet_def)

lemma post_dry_sent:
  assumes "isDryRun client"
  shows "sent (postLeagueTweet env client pio td) = []"
proof -
  have m: "fst (mainPost env client pio t media) = []" for t media
    using assms
    by (simp add: mainPost_def sendTweet_dry sendNoteTweet_dry split: sum.splits)
  have "sent (postLeagueTweet_try env client pio td) = []"
  proof (cases "mediaFor pio td")
    case (Inl e)
    then show ?thesis by (simp add: postLeagueTweet_try_def)
  next
    case (Inr media)
    obtain s1 r1 where mp: "mainPost env client pio (formatTweetText env td) media = (s1, r1)"
      by (cases "mainPost env client pio (formatTweetText env td) media")
    then have "s1 = []" using m [of "formatTweetText env td" media] by simp
    then show ?thesis using Inr mp assms
      by (cases r1) (simp_all add: postLeagueTweet_try_def Let_def sendTweet_dry)
  qed
  then show ?thesis by (simp add: postLeagueTweet_sent)
qed

lemma mainPost_dry_standard:
  assumes "isDryRun client" "\<not> SUPPORTS_NOTETWEET env"
  shows "mainPost env client pio t media = ([], Inr (Some (''dry-run-'' @ show_int (clock pio 0))))"
  using assms by (simp add: mainPost_def sendTweet_dry tweetId_dry)

lemma post_dry_standard_all:
  assumes "isDryRun client" "\<not> SUPPORTS_NOTETWEET env"
  shows "postLeagueTweet env client pio td =
           (case mediaFor pio td of
              Inl e \<Rightarrow> \<lparr>calls = [], sent = [], ending = Inr (Caught e)\<rparr>
            | Inr media \<Rightarrow>
                \<lparr>calls = [SendTweet (formatTweetText env td) None media,
                          SendTweet (generateLinkTweet td)
                            (Some (''dry-run-'' @ show_int (clock pio 0))) None],
                 sent = [],
                 ending = Inr (ThreadComplete (Some (''dry-run-'' @ show_int (clock pio 0)))
                                 (Some (''dry-run-'' @ show_int (clock pio 1))))\<rparr>)"
  using assms
  by (simp add: postLeagueTweet_def postLeagueTweet_try_def Let_def mainPost_dry_standard
      sendTweet_dry json_def dryRunTweet_def mainCall_def split: sum.splits)

lemma foldl_clearTimeout:
  "foldl (\<lambda>w' h. clearTimeout h w') w hs
     = w\<lparr>timers := filter (\<lambda>t. handle t \<notin> set hs) (timers w)\<rparr>"
proof (induction hs arbitrary: w)
  case Nil
  then show ?case by simp
next
  case (Cons h hs)
  have "foldl (\<lambda>w' h. clearTimeout h w') (clearTimeout h w) hs
          = (clearTimeout h w)\<lparr>timers := filter (\<lambda>t. handle t \<notin> set hs)
                                            (timers (clearTimeout h w))\<rparr>"
    by (rule Cons.IH)
  moreover have "filter (\<lambda>t. handle t \<notin> set hs) (filter (\<lambda>t. handle t \<noteq> h) (timers w))
          = filter (\<lambda>t. handle t \<notin> set (h # hs)) (timers w)"
    by (auto intro: filter_cong)
  ultimately show ?case by (simp add: clearTimeout_def)
qed

lemma stop_eq:
  "stop w = w\<lparr>timers := filter (\<lambda>t. handle t \<notin> snd ` set (leagueSchedules w)) (timers w),
               leagueSchedules := []\<rparr>"
  by (simp add: stop_def foldl_clearTimeout)

lemma fire_view:
  assumes "engine_view w1 = engine_view w2"
  shows "engine_view (fire env c1 h now pio w1) = engine_view (fire env c2 h now pio w2)"
  using assms
  by (auto simp: engine_view_def fire_def clearTimeout_def fetchAndScheduleLeague_def
      setInterval_def arm_def runPost_def Let_def split: option.splits callback.splits)

lemma scheduleLeagueTweet_view:
  assumes "engine_view w1 = engine_view w2"
  shows "engine_view (scheduleLeagueTweet league td now w1)
           = engine_view (scheduleLeagueTweet league td now w2)"
  using assms
  by (auto simp: engine_view_def scheduleLeagueTweet_def setTimeout_def arm_def Let_def
      split: list.splits)

lemma runPost_view: "engine_view (runPost env c pio td w) = engine_view w"
  by (simp add: engine_view_def runPost_def)

lemma resume_view:
  assumes "engine_view w1 = engine_view w2"
  shows "engine_view (fetchAndScheduleLeague_resume league gd now w1)
           = engine_view (fetchAndScheduleLeague_resume league gd now w2)"
  using assms scheduleLeagueTweet_view [OF assms]
  by (auto simp: fetchAndScheduleLeague_resume_def split: option.splits)

lemma startup_view:
  assumes "engine_view w1 = engine_view w2"
  shows "engine_view (startup_resume env c1 pio league gd now w1)
           = engine_view (startup_resume env c2 pio league gd now w2)"
  using assms scheduleLeagueTweet_view [OF assms]
  by (auto simp: startup_resume_def runPost_view Let_def split: option.splits)

lemma dequeue_view:
  assumes "engine_view w1 = engine_view w2"
  shows "engine_view (w1\<lparr>fetching := remove1 x (fetching w1)\<rparr>)
           = engine_view (w2\<lparr>fetching := remove1 x (fetching w2)\<rparr>)"
  using assms by (simp add: engine_view_def)

lemma step_view:
  assumes "engine_view w1 = engine_view w2"
  shows "engine_view (step env c1 ev w1) = engine_view (step env c2 ev w2)"
proof (cases ev)
  case (Fire h now pio)
  then show ?thesis using fire_view [OF assms] by (simp add: step_def)
next
  case (FetchDone league org gd now pio)
  have f: "fetching w1 = fetching w2" using assms by (simp add: engine_view_def)
  show ?thesis
    using FetchDone assms f resume_view [OF dequeue_view [OF assms]]
      startup_view [OF dequeue_view [OF assms]]
    by (simp add: step_def Let_def split: origin.splits)
next
  case Stop
  then show ?thesis using assms by (simp add: step_def stop_eq engine_view_def)
qed

lemma run_view:
  assumes "engine_view w1 = engine_view w2"
  shows "engine_view (run env c1 evs w1) = engine_view (run env c2 evs w2)"
  using assms unfolding run_def
proof (induction evs arbitrary: w1 w2)
  case Nil
  then show ?case by simp
next
  case (Cons ev evs)
  show ?case using Cons.IH [OF step_view [OF Cons.prems, of env c1 ev c2]] by simp
qed

lemma dry_run_notetweet_caught:
  assumes "isDryRun client" "SUPPORTS_NOTETWEET env" "mediaFor pio td = Inr media"
  shows "postLeagueTweet env client pio td
           = \<lparr>calls = [SendNoteTweet (formatTweetText env td) None media], sent = [],
              ending = Inr (Caught TypeError)\<rparr>"
  using assms
  by (simp add: postLeagueTweet_def postLeagueTweet_try_def Let_def mainPost_def
      sendNoteTweet_dry noteTweetId_def mainCall_def)

text \<open>
  C9, as the code has it.  The claim says that two dry-run calls with the same inputs
  give the same result.  The synthetic identifiers are \<open>dry-run-\<close> followed by
  \<open>Date.now()\<close>, read when the body of the result is read.  What holds in dry-run
  mode: no call reaches the scraper, neither from \<open>sendTweet\<close> or \<open>sendNoteTweet\<close>
  nor from a whole run of \<open>postLeagueTweet\<close>; both return, without throwing, a
  response with \<open>ok\<close> set whose body is a function of the inputs and of the clock
  when it is read; the result of \<open>sendTweet\<close> is read by \<open>postLeagueTweet\<close> as a
  successful post with that identifier, so a standard post makes both calls and
  completes the thread when its attachments can be read, and makes no call and ends in
  the \<open>catch\<close> with the error of the read when they cannot; and the timers, the
  handles, the map and the fetches in flight after any run of events are the same as
  with any other client.
\<close>

theorem dry_run_publisher:
  assumes "isDryRun client"
  shows "sendTweet client tio content replyTo media
           = ([], Inr (Response True (dryRunTweet content replyTo)))
       \<and> sendNoteTweet client tio content replyTo media
           = ([], Inr (Response True (dryRunNoteTweet content replyTo)))
       \<and> tweetId (Response True (dryRunTweet content replyTo)) now
           = Inr (Some (''dry-run-'' @ show_int now))
       \<and> sent (postLeagueTweet env client pio td) = []
       \<and> (\<not> SUPPORTS_NOTETWEET env \<longrightarrow>
            postLeagueTweet env client pio td =
              (case mediaFor pio td of
                 Inl e \<Rightarrow> \<lparr>calls = [], sent = [], ending = Inr (Caught e)\<rparr>
               | Inr media \<Rightarrow>
                   \<lparr>calls = [SendTweet (formatTweetText env td) None media,
                             SendTweet (generateLinkTweet td)
                               (Some (''dry-run-'' @ show_int (clock pio 0))) None],
                    sent = [],
                    ending = Inr (ThreadComplete
                                    (Some (''dry-run-'' @ show_int (clock pio 0)))
                                    (Some (''dry-run-'' @ show_int (clock pio 1))))\<rparr>))
       \<and> engine_view (run env client evs w) = engine_view (run env other evs w)"
  using assms sendTweet_dry sendNoteTweet_dry tweetId_dry post_dry_sent
    post_dry_standard_all [OF assms, of env pio td] run_view [of w w env client evs other]
  by simp

text \<open>A dry-run post of the NBA tweet, a dry-run post whose image cannot be read, and
  the run of the NBA cycle up to the publication with the dry-run client and with the
  live one.\<close>

theorem dry_run_publisher_witness:
  "isDryRun client_dry
   \<and> sent (postLeagueTweet env_off client_dry pio_ok tweet_nba) = []
   \<and> ending (postLeagueTweet env_off client_dry pio_ok tweet_nba)
       = Inr (ThreadComplete (Some ''dry-run-1700002800000'') (Some ''dry-run-1700002800000''))
   \<and> postLeagueTweet env_off client_dry pio_no_file tweet_nba_image
       = \<lparr>calls = [], sent = [], ending = Inr (Caught (Error ''ENOENT''))\<rparr>
   \<and> engine_view (run env_off client_dry
          [Fire 1 1699970400000 pio_ok,
           FetchDone ''NBA'' Cycle \<lparr>tweets = [tweet_nba]\<rparr> 1699970401000 pio_ok,
           Fire 5 1700002800000 pio_ok] started)
       = engine_view (run env_off client_live
          [Fire 1 1699970400000 pio_ok,
           FetchDone ''NBA'' Cycle \<lparr>tweets = [tweet_nba]\<rparr> 1699970401000 pio_ok,
           Fire 5 1700002800000 pio_ok] started)"
proof -
  have a: "isDryRun client_dry" by (simp add: client_dry_def)
  have b: "\<not> SUPPORTS_NOTETWEET env_off" by (simp add: env_off_def)
  have c: "mediaFor pio_ok tweet_nba = Inr None" by code_simp
  have d: "show_int (clock pio_ok 0) = ''1700002800000''"
    "show_int (clock pio_ok 1) = ''1700002800000''" by code_simp+
  have e: "mediaFor pio_no_file tweet_nba_image = Inl (Error ''ENOENT'')" by code_simp
  show ?thesis
    using dry_run_publisher [OF a, where env = env_off and pio = pio_ok and td = tweet_nba
        and w = started and other = client_live]
      dry_run_publisher [OF a, where env = env_off and pio = pio_no_file
        and td = tweet_nba_image]
      a b c d e
    by simp
qed

text \<open>C9 fails as stated: the same dry-run call, read at the clock values 1000 and
  2000, gives the identifiers \<open>dry-run-1000\<close> and \<open>dry-run-2000\<close>.\<close>

theorem dry_run_counterexample:
  "tweetId (projr (snd (sendTweet client_dry (twitter pio_ok 0) ''hello'' None None))) 1000
     \<noteq> tweetId (projr (snd (sendTweet client_dry (twitter pio_ok 0) ''hello'' None None))) 2000"
  by (simp add: sendTweet_def client_dry_def tweetId_def json_def dryRunTweet_def show_int_def
      show_digits.simps digit_def)

subsection \<open>The engine\<close>

lemma map_of_Map_set: "map_of (Map_set k v m) = (map_of m)(k \<mapsto> v)"
  by (induction m) auto

lemma keys_Map_set: "fst ` set (Map_set k v m) = insert k (fst ` set m)"
  by (simp add: dom_map_of_conv_image_fst [symmetric] map_of_Map_set)

lemma distinct_Map_set: "distinct (map fst m) \<Longrightarrow> distinct (map fst (Map_set k v m))"
proof (induction m)
  case Nil
  then show ?case by simp
next
  case (Cons p m)
  then show ?case using keys_Map_set [of k v m] by (cases p) auto
qed

lemma handle_eq:
  assumes "distinct (map handle ts)" "t \<in> set ts" "x \<in> set ts" "handle x = handle t"
  shows "x = t"
  using assms by (meson distinct_map inj_on_def)

lemma find_handle:
  assumes "distinct (map handle ts)" "t \<in> set ts"
  shows "find (\<lambda>x. handle x = handle t) ts = Some t"
proof -
  obtain x where x: "find (\<lambda>x. handle x = handle t) ts = Some x"
    using assms(2) by (cases "find (\<lambda>x. handle x = handle t) ts") (auto simp: find_None_iff)
  then have "x \<in> set ts" "handle x = handle t"
    by (auto simp: find_Some_iff)
  then show ?thesis using handle_eq [OF assms] x by simp
qed

lemma find_in:
  assumes "find (\<lambda>x. handle x = h) ts = Some t"
  shows "t \<in> set ts \<and> handle t = h"
  using assms by (auto simp: find_Some_iff)

lemma remove_keeps:
  assumes "distinct (map handle ts)" "t \<in> set ts" "\<not> P t"
  shows "filter P (filter (\<lambda>x. handle x \<noteq> handle t) ts) = filter P ts"
proof -
  have "P x \<and> handle x \<noteq> handle t \<longleftrightarrow> P x" if "x \<in> set ts" for x
    using handle_eq [OF assms(1,2) that] assms(3) by auto
  then show ?thesis by (auto intro: filter_cong)
qed

lemma remove_only:
  assumes "map handle (filter P ts) = [h]"
  shows "filter P (filter (\<lambda>x. handle x \<noteq> h) ts) = []"
proof -
  have "handle x = h" if "x \<in> set ts" "P x" for x
  proof -
    have "handle x \<in> set (map handle (filter P ts))" using that by auto
    then show ?thesis by (simp add: assms)
  qed
  then show ?thesis by (auto simp: filter_empty_conv)
qed

lemma registered_arm_publish:
  assumes "registered w"
  shows "registered (arm rep now d (PostTweet league td) w)"
  using assms
  by (auto simp: registered_def arm_def daily_timers_def is_daily_def)

lemma registered_scheduleLeagueTweet:
  "registered w \<Longrightarrow> registered (scheduleLeagueTweet league td now w)"
  by (auto simp: scheduleLeagueTweet_def setTimeout_def Let_def registered_arm_publish
      split: list.splits)

lemma registered_fields:
  assumes "timers w' = timers w" "nextHandle w' = nextHandle w"
    "leagueSchedules w' = leagueSchedules w"
  shows "registered w' \<longleftrightarrow> registered w"
  using assms by (simp add: registered_def daily_timers_def)

lemma registered_runPost: "registered (runPost env c pio td w) \<longleftrightarrow> registered w"
  by (rule registered_fields) (simp_all add: runPost_def)

lemma registered_fetchAndScheduleLeague:
  "registered (fetchAndScheduleLeague league w) \<longleftrightarrow> registered w"
  by (rule registered_fields) (simp_all add: fetchAndScheduleLeague_def split: option.splits)

lemma registered_resume:
  "registered w \<Longrightarrow> registered (fetchAndScheduleLeague_resume league gd now w)"
  by (auto simp: fetchAndScheduleLeague_resume_def registered_scheduleLeagueTweet
      split: option.splits)

lemma registered_startup:
  "registered w \<Longrightarrow> registered (startup_resume env c pio league gd now w)"
  by (auto simp: startup_resume_def registered_scheduleLeagueTweet registered_runPost Let_def
      split: option.splits)

lemma registered_remove_publish:
  assumes r: "registered w" and t: "t \<in> set (timers w)" and p: "is_publish t"
  shows "registered (clearTimeout (handle t) w)"
proof -
  have d: "distinct (map handle (timers w))" using r by (simp add: registered_def)
  have "\<not> is_daily l t" for l
    using p by (auto simp: is_publish_def is_daily_def split: callback.splits)
  then have "daily_timers l (clearTimeout (handle t) w) = daily_timers l w" for l
    using remove_keeps [OF d t] by (simp add: daily_timers_def clearTimeout_def)
  then show ?thesis using r
    by (auto simp: registered_def clearTimeout_def distinct_map_filter)
qed

lemma registered_daily_first:
  assumes r: "registered w" and t: "t \<in> set (timers w)" and c: "callback t = DailyFirst league"
  shows "registered
           ((arm True now d (DailyRepeat league) (clearTimeout (handle t) w))
              \<lparr>leagueSchedules := Map_set league (nextHandle w) (leagueSchedules w)\<rparr>)"
    (is "registered ?w'")
proof -
  have d: "distinct (map handle (timers w))"
    and b: "\<forall>x \<in> set (timers w). handle x < nextHandle w"
    and m: "\<And>l. map handle (daily_timers l w) =
           (case map_of (leagueSchedules w) l of None \<Rightarrow> [] | Some h \<Rightarrow> [h])"
    using r by (simp_all add: registered_def)
  have tm: "timers ?w' = filter (\<lambda>x. handle x \<noteq> handle t) (timers w)
              @ [\<lparr>handle = nextHandle w, repeating = True, armedAt = now, delay = d,
                  callback = DailyRepeat league\<rparr>]"
    and nh: "nextHandle ?w' = nextHandle w + 1"
    by (simp_all add: arm_def clearTimeout_def)
  have d': "distinct (map handle (timers ?w'))"
    unfolding tm using d b by (auto simp: distinct_map_filter)
  have b': "\<forall>x \<in> set (timers ?w'). handle x < nextHandle ?w'"
    unfolding tm nh using b by auto
  have own: "map handle (daily_timers league ?w') = [nextHandle w]"
  proof -
    have "t \<in> set (daily_timers league w)" using t c by (simp add: daily_timers_def is_daily_def)
    then have "handle t \<in> set (map handle (daily_timers league w))" by simp
    then have "map handle (daily_timers league w) = [handle t]"
      using m [of league] by (auto split: option.splits)
    then have "filter (is_daily league) (filter (\<lambda>x. handle x \<noteq> handle t) (timers w)) = []"
      unfolding daily_timers_def by (rule remove_only)
    then show ?thesis by (simp add: daily_timers_def tm is_daily_def)
  qed
  have other: "map handle (daily_timers l ?w') = map handle (daily_timers l w)" if "l \<noteq> league" for l
  proof -
    have "\<not> is_daily l t" using c that by (simp add: is_daily_def)
    then have "filter (is_daily l) (filter (\<lambda>x. handle x \<noteq> handle t) (timers w))
                 = filter (is_daily l) (timers w)"
      by (rule remove_keeps [OF d t])
    then show ?thesis using that by (simp add: daily_timers_def tm is_daily_def)
  qed
  have "map handle (daily_timers l ?w') =
           (case map_of (leagueSchedules ?w') l of None \<Rightarrow> [] | Some h \<Rightarrow> [h])" for l
  proof (cases "l = league")
    case True
    then show ?thesis using own by (simp add: map_of_Map_set)
  next
    case False
    then show ?thesis using other [OF False] m [of l] by (simp add: map_of_Map_set)
  qed
  then show ?thesis using d' b' unfolding registered_def by blast
qed

lemma fire_unfold:
  assumes "find (\<lambda>x. handle x = h) (timers w) = Some t"
  shows "callback t = DailyFirst league \<Longrightarrow>
           fire env c h now pio w
             = (arm True now 86400000 (DailyRepeat league)
                  (fetchAndScheduleLeague league (clearTimeout h w)))
                 \<lparr>leagueSchedules := Map_set league (nextHandle w) (leagueSchedules w)\<rparr>"
    and "callback t = DailyRepeat league \<Longrightarrow>
           fire env c h now pio w = fetchAndScheduleLeague league w"
    and "callback t = PostTweet league td \<Longrightarrow>
           fire env c h now pio w = runPost env c pio td (clearTimeout h w)"
  using assms
  by (simp_all add: fire_def Let_def setInterval_def arm_def fetchAndScheduleLeague_def
      clearTimeout_def split: option.splits)

lemma arm_fetch_commute:
  "arm rep now d cb (fetchAndScheduleLeague league w)
     = fetchAndScheduleLeague league (arm rep now d cb w)"
  by (simp add: arm_def fetchAndScheduleLeague_def split: option.splits)

lemma fetch_fields:
  "timers (fetchAndScheduleLeague league w) = timers w"
  "nextHandle (fetchAndScheduleLeague league w) = nextHandle w"
  "leagueSchedules (fetchAndScheduleLeague league w) = leagueSchedules w"
  by (simp_all add: fetchAndScheduleLeague_def split: option.splits)

lemma registered_fire:
  assumes r: "registered w"
  shows "registered (fire env c h now pio w)"
proof (cases "find (\<lambda>x. handle x = h) (timers w)")
  case None
  then show ?thesis using r by (simp add: fire_def)
next
  case (Some t)
  then have t: "t \<in> set (timers w)" and h: "h = handle t" using find_in by fastforce+
  show ?thesis
  proof (cases "callback t")
    case (DailyFirst league)
    let ?w' = "(arm True now 86400000 (DailyRepeat league) (clearTimeout (handle t) w))
                 \<lparr>leagueSchedules := Map_set league (nextHandle w) (leagueSchedules w)\<rparr>"
    have "registered ?w'" by (rule registered_daily_first [OF r t DailyFirst])
    moreover have "timers (fire env c h now pio w) = timers ?w'"
      "nextHandle (fire env c h now pio w) = nextHandle ?w'"
      "leagueSchedules (fire env c h now pio w) = leagueSchedules ?w'"
      using fire_unfold(1) [OF Some DailyFirst, of env c now pio]
      by (simp_all add: h arm_def fetch_fields clearTimeout_def)
    ultimately show ?thesis using registered_fields by blast
  next
    case (DailyRepeat league)
    then show ?thesis
      using r fire_unfold(2) [OF Some DailyRepeat, of env c now pio]
      by (simp add: registered_fetchAndScheduleLeague)
  next
    case (PostTweet league td)
    then have "is_publish t" by (simp add: is_publish_def)
    then have "registered (clearTimeout h w)"
      using registered_remove_publish [OF r t] by (simp add: h)
    then show ?thesis
      using fire_unfold(3) [OF Some PostTweet, of env c now pio]
      by (simp add: registered_runPost)
  qed
qed

lemma registered_dequeue:
  "registered (w\<lparr>fetching := fs\<rparr>) \<longleftrightarrow> registered w"
  by (rule registered_fields) simp_all

lemma registered_step:
  assumes "registered w" "ev \<noteq> Stop"
  shows "registered (step env c ev w)"
proof (cases ev)
  case (Fire h now pio)
  then show ?thesis using registered_fire [OF assms(1)] by (simp add: step_def)
next
  case (FetchDone league org gd now pio)
  then show ?thesis
    using assms(1)
    by (simp add: step_def Let_def registered_resume registered_startup registered_dequeue
        split: origin.splits)
next
  case Stop
  then show ?thesis using assms(2) by simp
qed

lemma scheduleLeagueTweet_map:
  "leagueSchedules (scheduleLeagueTweet league td now w) = leagueSchedules w"
  by (simp add: scheduleLeagueTweet_def setTimeout_def arm_def Let_def split: list.splits)

lemma resume_map:
  "leagueSchedules (fetchAndScheduleLeague_resume league gd now w) = leagueSchedules w"
  by (simp add: fetchAndScheduleLeague_resume_def scheduleLeagueTweet_map split: option.splits)

lemma startup_map:
  "leagueSchedules (startup_resume env c pio league gd now w) = leagueSchedules w"
  by (simp add: startup_resume_def scheduleLeagueTweet_map runPost_def Let_def
      split: option.splits)

lemma fire_map:
  "leagueSchedules (fire env c h now pio w) = leagueSchedules w
   \<or> (\<exists>league v. leagueSchedules (fire env c h now pio w) = Map_set league v (leagueSchedules w))"
  by (auto simp: fire_def Let_def setInterval_def arm_def clearTimeout_def runPost_def
      fetch_fields split: option.splits callback.splits)

lemma step_map:
  assumes "ev \<noteq> Stop"
  shows "leagueSchedules (step env c ev w) = leagueSchedules w
   \<or> (\<exists>league v. leagueSchedules (step env c ev w) = Map_set league v (leagueSchedules w))"
proof (cases ev)
  case (Fire h now pio)
  then show ?thesis using fire_map [of env c h now pio w] by (simp add: step_def)
next
  case (FetchDone league org gd now pio)
  then show ?thesis
    by (simp add: step_def Let_def resume_map startup_map split: origin.splits)
next
  case Stop
  then show ?thesis using assms by simp
qed

lemma keyed_step:
  assumes "keyed w" "ev \<noteq> Stop"
  shows "keyed (step env c ev w)"
proof -
  from step_map [OF assms(2), of env c w]
  consider "leagueSchedules (step env c ev w) = leagueSchedules w"
    | league v where "leagueSchedules (step env c ev w) = Map_set league v (leagueSchedules w)"
    by blast
  then show ?thesis
  proof cases
    case 1
    then show ?thesis using assms(1) by (simp add: keyed_def)
  next
    case 2
    then show ?thesis using assms(1) unfolding keyed_def
      by (simp add: distinct_Map_set keys_Map_set subset_insertI2)
  qed
qed

lemma run_invariant:
  assumes "registered w" "keyed w" "Stop \<notin> set evs"
  shows "registered (run env c evs w) \<and> keyed (run env c evs w)"
  using assms unfolding run_def
proof (induction evs arbitrary: w)
  case Nil
  then show ?case by simp
next
  case (Cons ev evs)
  have "ev \<noteq> Stop" "Stop \<notin> set evs" using Cons.prems(3) by auto
  then show ?case
    using Cons.IH [of "step env c ev w"] registered_step [OF Cons.prems(1)]
      keyed_step [OF Cons.prems(2)]
    by simp
qed

lemma start_timers:
  "timers (start env z now world0)
     = map (\<lambda>(h, league, config).
              \<lparr>handle = h, repeating = False, armedAt = now,
               delay = timeUntilNextFetch z now config, callback = DailyFirst league\<rparr>)
         (zip [0, 1, 2, 3] LEAGUE_FETCH_TIMES)"
  "nextHandle (start env z now world0) = 4"
  "leagueSchedules (start env z now world0) = [(''EPL'', 0), (''NBA'', 1), (''NHL'', 2), (''MLB'', 3)]"
  by (simp_all add: start_def LEAGUE_FETCH_TIMES_def setupLeagueScheduler_def setTimeout_def
      arm_def world0_def Let_def)

lemma start_invariant: "registered (start env z now world0) \<and> keyed (start env z now world0)"
  by (auto simp: registered_def keyed_def start_timers daily_timers_def is_daily_def
      LEAGUE_FETCH_TIMES_def)

lemma sorted_Min_hd:
  fixes ys :: "int list"
  assumes "sorted ys" "ys \<noteq> []"
  shows "Min (set ys) = hd ys"
proof (cases ys)
  case Nil
  then show ?thesis using assms(2) by simp
next
  case (Cons y rest)
  then have "\<forall>x \<in> set ys. y \<le> x" using assms(1) by auto
  then show ?thesis using Cons by (auto intro!: Min_eqI)
qed

lemma first_game_earliest:
  assumes "getGames io i = (l, Inr r)" "td \<in> set (tweets r)"
  shows "\<exists>firstGame rest. games td = firstGame # rest
           \<and> startsAt firstGame = Min (startsAt ` set (games td))"
proof -
  obtain ev where ev: "ev \<noteq> []" "games td = sort_key startsAt ev"
    using getGames_games [OF assms] by blast
  have n: "games td \<noteq> []" using ev by (metis length_sort length_0_conv)
  then obtain firstGame rest where g: "games td = firstGame # rest" by (cases "games td") auto
  have "sorted (map startsAt (games td))" by (simp add: ev(2))
  then have "Min (set (map startsAt (games td))) = hd (map startsAt (games td))"
    using n by (intro sorted_Min_hd) auto
  then show ?thesis using g by simp
qed

lemma scheduleLeagueTweet_first:
  assumes "games td = firstGame # rest"
  shows "startsAt firstGame * 1000 - 60 * 60 * 1000 - now > 0 \<Longrightarrow>
         scheduleLeagueTweet league td now w
           = w\<lparr>timers := timers w @ [\<lparr>handle = nextHandle w, repeating = False, armedAt = now,
                  delay = startsAt firstGame * 1000 - 60 * 60 * 1000 - now,
                  callback = PostTweet league td\<rparr>],
               nextHandle := nextHandle w + 1\<rparr>"
    and "\<not> startsAt firstGame * 1000 - 60 * 60 * 1000 - now > 0 \<Longrightarrow>
         scheduleLeagueTweet league td now w = w"
  using assms by (simp_all add: scheduleLeagueTweet_def setTimeout_def arm_def Let_def)

text \<open>
  C6.  For a batch that \<open>getGames\<close> returned, with \<open>T\<close> the start of its earliest
  game in milliseconds and \<open>L\<close> one hour: when \<open>T - L\<close> is strictly after \<open>now\<close>,
  \<open>scheduleLeagueTweet\<close> arms exactly one timer, one-shot, with a fresh handle, due at
  \<open>now + (T - L - now) = T - L\<close>, that publishes this batch, and changes nothing else;
  otherwise it leaves the state as it is: no timer is armed and nothing is published.
\<close>

theorem publish_timer_one_hour_before:
  assumes "getGames io i = (l, Inr r)" "td \<in> set (tweets r)"
  shows "let T = Min (startsAt ` set (games td)) * 1000; L = 60 * 60 * 1000 in
           (now < T - L \<longrightarrow>
              scheduleLeagueTweet league td now w
                = w\<lparr>timers := timers w @ [\<lparr>handle = nextHandle w, repeating = False,
                       armedAt = now, delay = T - L - now, callback = PostTweet league td\<rparr>],
                    nextHandle := nextHandle w + 1\<rparr>)
         \<and> (T - L \<le> now \<longrightarrow> scheduleLeagueTweet league td now w = w)"
proof -
  obtain firstGame rest where g: "games td = firstGame # rest"
    and m: "startsAt firstGame = Min (startsAt ` set (games td))"
    using first_game_earliest [OF assms] by blast
  show ?thesis
    using scheduleLeagueTweet_first [OF g, of now league w]
    by (simp add: Let_def m)
qed

lemma daily_is_registered:
  assumes r: "registered w" and t: "t \<in> set (timers w)" and d: "is_daily league t"
  shows "map_of (leagueSchedules w) league = Some (handle t) \<and> daily_timers league w = [t]"
proof -
  have m: "map handle (daily_timers league w) =
           (case map_of (leagueSchedules w) league of None \<Rightarrow> [] | Some h \<Rightarrow> [h])"
    using r by (simp add: registered_def)
  have i: "t \<in> set (daily_timers league w)" using t d by (simp add: daily_timers_def)
  then have "handle t \<in> set (map handle (daily_timers league w))" by simp
  then have h: "map_of (leagueSchedules w) league = Some (handle t)"
    "map handle (daily_timers league w) = [handle t]"
    using m by (auto split: option.splits)
  then obtain x where "daily_timers league w = [x]" by auto
  then show ?thesis using h(1) i by simp
qed

lemma registered_one:
  assumes r: "registered w" and k: "map_of (leagueSchedules w) league = Some h"
  shows "\<exists>t. daily_timers league w = [t] \<and> handle t = h"
proof -
  have "map handle (daily_timers league w) = [h]"
    using r k by (simp add: registered_def)
  then show ?thesis by auto
qed

lemma publish_or_daily: "is_publish t \<or> (\<exists>league. is_daily league t)"
  by (cases "callback t") (simp_all add: is_publish_def is_daily_def)

lemma publish_not_daily: "is_publish t \<Longrightarrow> \<not> is_daily league t"
  by (cases "callback t") (simp_all add: is_publish_def is_daily_def)

lemma stop_timers:
  assumes r: "registered w" and k: "distinct (map fst (leagueSchedules w))"
  shows "timers (stop w) = filter is_publish (timers w)"
proof -
  have "handle t \<notin> snd ` set (leagueSchedules w) \<longleftrightarrow> is_publish t"
    if t: "t \<in> set (timers w)" for t
  proof
    assume n: "handle t \<notin> snd ` set (leagueSchedules w)"
    show "is_publish t"
    proof (rule ccontr)
      assume "\<not> is_publish t"
      then obtain league where "is_daily league t" using publish_or_daily by blast
      then have "map_of (leagueSchedules w) league = Some (handle t)"
        using daily_is_registered [OF r t] by blast
      then have "(league, handle t) \<in> set (leagueSchedules w)" by (rule map_of_SomeD)
      then show False using n by force
    qed
  next
    assume p: "is_publish t"
    show "handle t \<notin> snd ` set (leagueSchedules w)"
    proof
      assume "handle t \<in> snd ` set (leagueSchedules w)"
      then obtain league where "(league, handle t) \<in> set (leagueSchedules w)" by auto
      then have "map_of (leagueSchedules w) league = Some (handle t)"
        using k by simp
      then obtain x where x: "daily_timers league w = [x]" "handle x = handle t"
        using registered_one [OF r] by blast
      then have "x \<in> set (daily_timers league w)" by simp
      then have "x \<in> set (timers w)" "is_daily league x"
        by (simp_all add: daily_timers_def)
      moreover have "distinct (map handle (timers w))" using r by (simp add: registered_def)
      ultimately have "x = t" using handle_eq t x(2) by blast
      then show False using p \<open>is_daily league x\<close> publish_not_daily by blast
    qed
  qed
  then have "filter (\<lambda>t. handle t \<notin> snd ` set (leagueSchedules w)) (timers w)
               = filter is_publish (timers w)"
    by (intro filter_cong) auto
  then show ?thesis by (simp add: stop_eq)
qed

lemma stop_twice: "stop (stop w) = stop w"
  by (simp add: stop_eq)

lemma stop_stopped: "leagueSchedules w = [] \<Longrightarrow> stop w = w"
  by (simp add: stop_eq)


text \<open>
  C2, as the code has it.  The claim says every league has exactly one armed timer at
  every instant, also while a publication is pending.  The publish timer is armed next
  to the daily one and its handle is not kept.  What holds in every state of a run
  from \<open>start\<close> without \<open>stop\<close>: every league of \<open>LEAGUE_FETCH_TIMES\<close> has exactly
  one armed daily timer (the first timeout or the repeating one), and it is the timer
  whose handle \<open>leagueSchedules\<close> holds for the league.
\<close>

theorem one_daily_timer_per_league:
  assumes "Stop \<notin> set evs" "league \<in> set (map fst LEAGUE_FETCH_TIMES)"
  shows "\<exists>t. daily_timers league (run env client evs (start env z now world0)) = [t]
             \<and> map_of (leagueSchedules (run env client evs (start env z now world0))) league
                 = Some (handle t)"
proof -
  let ?w = "run env client evs (start env z now world0)"
  have r: "registered ?w" and k: "keyed ?w"
    using run_invariant [OF _ _ assms(1)] start_invariant by blast+
  have "league \<in> fst ` set (leagueSchedules ?w)" using k assms(2) by (auto simp: keyed_def)
  then obtain h where "map_of (leagueSchedules ?w) league = Some h"
    by (metis domD dom_map_of_conv_image_fst)
  then show ?thesis using registered_one [OF r] by blast
qed

text \<open>
  After the first NBA fetch has fired, the daily timer of the NBA is the one with
  handle 4.
\<close>

theorem one_daily_timer_per_league_witness:
  "Stop \<notin> set [Fire 1 1699970400000 pio_ok]
   \<and> ''NBA'' \<in> set (map fst LEAGUE_FETCH_TIMES)
   \<and> map handle (daily_timers ''NBA'' (run env_off client_live [Fire 1 1699970400000 pio_ok] started)) = [4]"
proof -
  have a: "Stop \<notin> set [Fire 1 1699970400000 pio_ok]" by simp
  have b: "''NBA'' \<in> set (map fst LEAGUE_FETCH_TIMES)" by (simp add: LEAGUE_FETCH_TIMES_def)
  have c: "map_of (leagueSchedules (run env_off client_live [Fire 1 1699970400000 pio_ok] started))
             ''NBA'' = Some 4"
    by code_simp
  show ?thesis
    using one_daily_timer_per_league [OF a b, of env_off client_live "fixedZone 3600000"
        1699966800000] a b c
    by (auto simp: started_def)
qed

text \<open>
  C2 fails as stated: once the NBA fetch of the run has found games, the NBA has two
  armed timers, the repeating daily one (handle 4) and the pending publication
  (handle 5).
\<close>

theorem one_timer_counterexample:
  "map handle (league_timers ''NBA''
      (run env_off client_live
         [Fire 1 1699970400000 pio_ok,
          FetchDone ''NBA'' Cycle \<lparr>tweets = [tweet_nba]\<rparr> 1699970401000 pio_ok] started))
     = [4, 5]"
  by code_simp


lemma fire_daily_first:
  assumes r: "registered w" and t: "t \<in> set (timers w)" and c: "callback t = DailyFirst league"
  shows "daily_timers league (fire env cl (handle t) now pio w)
           = [\<lparr>handle = nextHandle w, repeating = True, armedAt = now, delay = 86400000,
               callback = DailyRepeat league\<rparr>]"
    and "map_of (leagueSchedules (fire env cl (handle t) now pio w)) league = Some (nextHandle w)"
proof -
  have d: "distinct (map handle (timers w))" using r by (simp add: registered_def)
  have f: "fire env cl (handle t) now pio w
             = (arm True now 86400000 (DailyRepeat league)
                  (fetchAndScheduleLeague league (clearTimeout (handle t) w)))
                 \<lparr>leagueSchedules := Map_set league (nextHandle w) (leagueSchedules w)\<rparr>"
    by (rule fire_unfold(1) [OF find_handle [OF d t] c])
  have "is_daily league t" using c by (simp add: is_daily_def)
  then have "daily_timers league w = [t]" using daily_is_registered [OF r t] by blast
  then have "map handle (filter (is_daily league) (timers w)) = [handle t]"
    by (simp add: daily_timers_def)
  then have "filter (is_daily league) (filter (\<lambda>x. handle x \<noteq> handle t) (timers w)) = []"
    by (rule remove_only)
  then show "daily_timers league (fire env cl (handle t) now pio w)
           = [\<lparr>handle = nextHandle w, repeating = True, armedAt = now, delay = 86400000,
               callback = DailyRepeat league\<rparr>]"
    by (simp add: f daily_timers_def arm_def fetch_fields clearTimeout_def is_daily_def)
  show "map_of (leagueSchedules (fire env cl (handle t) now pio w)) league = Some (nextHandle w)"
    by (simp add: f map_of_Map_set)
qed

lemma fire_daily_repeat:
  assumes r: "registered w" and t: "t \<in> set (timers w)" and c: "callback t = DailyRepeat league"
  shows "timers (fire env cl (handle t) now pio w) = timers w
       \<and> leagueSchedules (fire env cl (handle t) now pio w) = leagueSchedules w"
proof -
  have d: "distinct (map handle (timers w))" using r by (simp add: registered_def)
  show ?thesis
    by (simp add: fire_unfold(2) [OF find_handle [OF d t] c] fetch_fields)
qed

text \<open>
  C4, as the code has it.  The claim says each cycle arms a new daily timer with a wait
  computed again, never a fixed interval of 24 hours.  The code computes the wait once,
  in \<open>setupLeagueScheduler\<close>.  What holds in every state of a run from \<open>start\<close>
  without \<open>stop\<close>: when the first daily timer of a league fires, the league's only
  daily timer afterwards is a new repeating timer of exactly 86,400,000 ms, armed at
  the time of firing; when that repeating timer fires, no timer is armed or cleared and
  the map is unchanged.
\<close>

theorem daily_recurrence_fixed_interval:
  assumes "Stop \<notin> set evs" "t \<in> set (timers (run env client evs (start env z now world0)))"
  shows "(callback t = DailyFirst league \<longrightarrow>
            daily_timers league
              (step env client (Fire (handle t) fired pio) (run env client evs (start env z now world0)))
              = [\<lparr>handle = nextHandle (run env client evs (start env z now world0)),
                  repeating = True, armedAt = fired, delay = 24 * 60 * 60 * 1000,
                  callback = DailyRepeat league\<rparr>])
       \<and> (callback t = DailyRepeat league \<longrightarrow>
            timers (step env client (Fire (handle t) fired pio)
                      (run env client evs (start env z now world0)))
              = timers (run env client evs (start env z now world0))
            \<and> leagueSchedules (step env client (Fire (handle t) fired pio)
                      (run env client evs (start env z now world0)))
              = leagueSchedules (run env client evs (start env z now world0)))"
proof -
  let ?w = "run env client evs (start env z now world0)"
  have r: "registered ?w"
    using run_invariant [OF _ _ assms(1)] start_invariant by blast
  show ?thesis
    using fire_daily_first(1) [OF r assms(2)] fire_daily_repeat [OF r assms(2)]
    by (simp add: step_def)
qed

text \<open>
  The first NBA timer of the run, fired five seconds late, and the repeating timer it
  arms, fired a day later.
\<close>

theorem daily_recurrence_fixed_interval_witness:
  "Stop \<notin> set [Fire 1 1699970405000 pio_ok]
   \<and> \<lparr>handle = 1, repeating = False, armedAt = 1699966800000, delay = 3600000,
       callback = DailyFirst ''NBA''\<rparr> \<in> set (timers started)
   \<and> daily_timers ''NBA'' (step env_off client_live (Fire 1 1699970405000 pio_ok) started)
       = [\<lparr>handle = 4, repeating = True, armedAt = 1699970405000, delay = 86400000,
           callback = DailyRepeat ''NBA''\<rparr>]
   \<and> \<lparr>handle = 4, repeating = True, armedAt = 1699970405000, delay = 86400000,
       callback = DailyRepeat ''NBA''\<rparr>
       \<in> set (timers (run env_off client_live [Fire 1 1699970405000 pio_ok] started))
   \<and> timers (step env_off client_live (Fire 4 1700056805000 pio_ok)
               (run env_off client_live [Fire 1 1699970405000 pio_ok] started))
       = timers (run env_off client_live [Fire 1 1699970405000 pio_ok] started)"
proof -
  let ?t = "\<lparr>handle = 1, repeating = False, armedAt = 1699966800000, delay = 3600000,
       callback = DailyFirst ''NBA''\<rparr>"
  let ?u = "\<lparr>handle = 4, repeating = True, armedAt = 1699970405000, delay = 86400000,
       callback = DailyRepeat ''NBA''\<rparr>"
  have a: "Stop \<notin> set []" "Stop \<notin> set [Fire 1 1699970405000 pio_ok]" by simp_all
  have s: "run env_off client_live [] started = started"
    by (simp add: run_def)
  have b: "?t \<in> set (timers started)" by code_simp
  have n: "nextHandle started = 4" by code_simp
  have c: "?u \<in> set (timers (run env_off client_live [Fire 1 1699970405000 pio_ok] started))"
    by code_simp
  show ?thesis
    using daily_recurrence_fixed_interval [of "[]" ?t env_off client_live "fixedZone 3600000"
        1699966800000 "''NBA''" 1699970405000 pio_ok]
      daily_recurrence_fixed_interval [of "[Fire 1 1699970405000 pio_ok]" ?u env_off client_live
        "fixedZone 3600000" 1699966800000 "''NBA''" 1700056805000 pio_ok]
      a b c n
    by (simp add: started_def [symmetric] s)
qed

text \<open>
  C4 fails as stated: the NBA timer fires five seconds late and the next daily timer is
  a repeating one of 86,400,000 ms, while the wait computed at that instant would be
  86,395,000 ms.
\<close>

theorem daily_recurrence_counterexample:
  "daily_timers ''NBA'' (run env_off client_live [Fire 1 1699970405000 pio_ok] started)
     = [\<lparr>handle = 4, repeating = True, armedAt = 1699970405000, delay = 86400000,
         callback = DailyRepeat ''NBA''\<rparr>]
   \<and> timeUntilNextFetch (fixedZone 3600000) 1699970405000
        \<lparr>fetchHour = 15, fetchMinute = 0, timeZone = ''Europe/Madrid''\<rparr> = 86395000"
  by code_simp

text \<open>
  C3, as the code has it.  The claim says \<open>stop\<close> cancels the pending publish timers
  too and leaves no timer armed.  \<open>stop\<close> clears the handles kept in
  \<open>leagueSchedules\<close>, and the handle of a publish timer is never kept.  What holds in
  every state of a run from \<open>start\<close>: after \<open>stop\<close> the armed timers are exactly the
  publish timers that were pending, no daily timer of any league is armed, and the map
  is empty; \<open>stop\<close> after \<open>stop\<close>, and \<open>stop\<close> before \<open>start\<close>, change nothing.
\<close>

theorem stop_cancels_daily_timers:
  assumes "Stop \<notin> set evs"
  shows "timers (stop (run env client evs (start env z now world0)))
           = filter is_publish (timers (run env client evs (start env z now world0)))
       \<and> leagueSchedules (stop (run env client evs (start env z now world0))) = []
       \<and> daily_timers league (stop (run env client evs (start env z now world0))) = []
       \<and> stop (stop (run env client evs (start env z now world0)))
           = stop (run env client evs (start env z now world0))
       \<and> stop world0 = world0"
proof -
  let ?w = "run env client evs (start env z now world0)"
  have r: "registered ?w" and k: "keyed ?w"
    using run_invariant [OF _ _ assms(1)] start_invariant by blast+
  have t: "timers (stop ?w) = filter is_publish (timers ?w)"
    using stop_timers [OF r] k by (simp add: keyed_def)
  have "filter (is_daily league) (filter is_publish (timers ?w)) = []"
    by (auto simp: filter_empty_conv publish_not_daily)
  then have d: "daily_timers league (stop ?w) = []" by (simp add: daily_timers_def t)
  have "stop world0 = world0" by (simp add: stop_stopped world0_def)
  then show ?thesis using t d by (simp add: stop_twice stop_eq)
qed

text \<open>
  The run with a pending NBA publication, stopped.
\<close>

theorem stop_cancels_daily_timers_witness:
  "Stop \<notin> set [Fire 1 1699970400000 pio_ok,
                 FetchDone ''NBA'' Cycle \<lparr>tweets = [tweet_nba]\<rparr> 1699970401000 pio_ok]
   \<and> daily_timers ''NBA'' (stop (run env_off client_live
         [Fire 1 1699970400000 pio_ok,
          FetchDone ''NBA'' Cycle \<lparr>tweets = [tweet_nba]\<rparr> 1699970401000 pio_ok] started)) = []
   \<and> leagueSchedules (stop (run env_off client_live
         [Fire 1 1699970400000 pio_ok,
          FetchDone ''NBA'' Cycle \<lparr>tweets = [tweet_nba]\<rparr> 1699970401000 pio_ok] started)) = []"
proof -
  have a: "Stop \<notin> set [Fire 1 1699970400000 pio_ok,
                 FetchDone ''NBA'' Cycle \<lparr>tweets = [tweet_nba]\<rparr> 1699970401000 pio_ok]"
    by simp
  show ?thesis
    using stop_cancels_daily_timers [OF a, of env_off client_live "fixedZone 3600000"
        1699966800000 "''NBA''"] a
    by (simp add: started_def)
qed

text \<open>
  C3 fails as stated: after \<open>stop\<close> in that run one timer is still armed, the pending
  publication with handle 5.
\<close>

theorem stop_counterexample:
  "map handle (timers (stop (run env_off client_live
      [Fire 1 1699970400000 pio_ok,
       FetchDone ''NBA'' Cycle \<lparr>tweets = [tweet_nba]\<rparr> 1699970401000 pio_ok] started))) = [5]
   \<and> map is_publish (timers (stop (run env_off client_live
      [Fire 1 1699970400000 pio_ok,
       FetchDone ''NBA'' Cycle \<lparr>tweets = [tweet_nba]\<rparr> 1699970401000 pio_ok] started))) = [True]"
  by code_simp

text \<open>
  The NBA batch of the example, scheduled at 2023-11-14T14:00:01Z: one one-shot timer
  due one hour before the first game.  Scheduled exactly one hour before the first
  game: nothing is armed.
\<close>

theorem publish_timer_one_hour_before_witness:
  "tweets (projr (snd (getGames io_nba (Some ''31_United States_NBA'')))) \<noteq> []
   \<and> map (\<lambda>t. (handle t, repeating t, armedAt t + delay t))
       (timers (scheduleLeagueTweet ''NBA''
          (hd (tweets (projr (snd (getGames io_nba (Some ''31_United States_NBA''))))))
          1699970401000 world0))
       = [(0, False, 1700006400 * 1000 - 60 * 60 * 1000)]
   \<and> scheduleLeagueTweet ''NBA''
          (hd (tweets (projr (snd (getGames io_nba (Some ''31_United States_NBA''))))))
          1700002800000 world0 = world0"
proof -
  let ?g = "getGames io_nba (Some ''31_United States_NBA'')"
  let ?td = "hd (tweets (projr (snd ?g)))"
  have a: "?g = (fst ?g, Inr (projr (snd ?g)))"
    using getGames_total [of io_nba "Some ''31_United States_NBA''"] by auto
  have b: "map games (tweets (projr (snd ?g))) = [[game_early, game_late]]"
    by code_simp
  then have n: "tweets (projr (snd ?g)) \<noteq> []" by auto
  then have m: "?td \<in> set (tweets (projr (snd ?g)))" by simp
  have g: "games ?td = [game_early, game_late]" using b n by (cases "tweets (projr (snd ?g))") auto
  have mn: "Min (startsAt ` set (games ?td)) = 1700006400"
    by (simp add: g game_early_def game_late_def)
  show ?thesis
    using publish_timer_one_hour_before [OF a m, of 1699970401000 "''NBA''" world0]
      publish_timer_one_hour_before [OF a m, of 1700002800000 "''NBA''" world0] n
    by (simp add: mn Let_def world0_def)
qed

end
